theory Spec2Isabelle
  imports Main "HOL-Library.Signed_Division"
begin

section \<open>The connectivity runtime of the gateway: data model\<close>

text \<open>
  The development embeds \<^verbatim>\<open>slog.c\<close> and \<^verbatim>\<open>pool.c\<close>. A C pointer is an address
  (\<open>addr\<close>), \<^verbatim>\<open>NULL\<close> is \<open>None\<close>. Everything the C functions mutate or call lives in
  one record \<open>world\<close>, passed in and returned: the server structure, the pools and the
  reconnect tasks on the heap, the timers handed to libevent, and the sequence of calls
  made to the operating system and to functions that are not part of the two files.

  Conventions.
  \<^item> A C string is the list of its characters before the terminating NUL.
  \<^item> A \<^verbatim>\<open>size_t\<close> is a \<open>nat\<close> up to \<open>SIZE_MAX\<close>, 64 bits wide. The one sum of
    \<^verbatim>\<open>slog.c\<close> that can pass \<open>SIZE_MAX\<close>, \<^verbatim>\<open>sz+1\<close> in \<^verbatim>\<open>slog_internal\<close>, wraps
    around. The sizes \<^verbatim>\<open>pool.c\<close> computes are the length of a string held in memory
    plus a small constant and stay below it.
  \<^item> Where \<^verbatim>\<open>pool.c\<close> tests what \<^verbatim>\<open>calloc\<close> returns (\<^verbatim>\<open>if(log_msg)\<close>, \<^verbatim>\<open>if(msg)\<close>), the
    world says whether it returns memory, and both outcomes are branches of the model.
    \<^verbatim>\<open>pool_schedule_reconnect\<close> and \<^verbatim>\<open>pool_new\<close> use what \<^verbatim>\<open>malloc\<close> and \<^verbatim>\<open>calloc\<close>
    return without a test; there the model has the one path the code has.
  \<^item> The callbacks run one at a time: each pool is touched by its worker's thread only,
    and the one shared variable, \<^verbatim>\<open>auth_logged\<close>, is read and written under a mutex.
\<close>

type_synonym addr = nat

subsection \<open>Declarations of \<^verbatim>\<open>slog.h\<close>\<close>

text \<open>
  Modelled from the spec: \<^verbatim>\<open>slog.h\<close>, which declares the log levels, the flush modes
  and \<^verbatim>\<open>SLOG_MSG_MAX_LEN\<close>, is not among the sources. The spec orders the levels
  numerically, a lower value for a higher severity, with error the most severe.
  \<^verbatim>\<open>slog_internal\<close> has one letter per level in its table \<^verbatim>\<open>"EWNIDT"\<close> and reads it
  with \<^verbatim>\<open>c[level]\<close> for every level but \<^verbatim>\<open>WEBDIS_TRACE\<close>: the first five levels have
  the index of their letter as value, and \<^verbatim>\<open>WEBDIS_TRACE\<close>, whose letter is not found
  at its own value, a larger one (8 here; only its being the largest is used). The
  flush modes are the spec's Never, PeriodicMillis and EveryWrite, in this order,
  under the names of the code. \<^verbatim>\<open>SLOG_MSG_MAX_LEN\<close> is a parameter \<open>M\<close> of every
  function that logs; \<^verbatim>\<open>slog.c\<close> refuses to compile unless it is at least 64.
\<close>

datatype log_level =
  WEBDIS_ERROR | WEBDIS_WARNING | WEBDIS_NOTICE | WEBDIS_INFO | WEBDIS_DEBUG | WEBDIS_TRACE

fun level_num :: "log_level \<Rightarrow> nat" where
  "level_num WEBDIS_ERROR = 0"
| "level_num WEBDIS_WARNING = 1"
| "level_num WEBDIS_NOTICE = 2"
| "level_num WEBDIS_INFO = 3"
| "level_num WEBDIS_DEBUG = 4"
| "level_num WEBDIS_TRACE = 8"

datatype log_fsync_mode = LOG_FSYNC_AUTO | LOG_FSYNC_MILLIS | LOG_FSYNC_ALL

subsection \<open>\<^verbatim>\<open>conf.h\<close> and \<^verbatim>\<open>server.h\<close>: the fields the two files read\<close>

record log_fsync_conf =
  mode :: log_fsync_mode
  period_millis :: int

record conf =
  database :: int
  verbosity :: log_level
  log_fsync :: log_fsync_conf

record timeval =
  tv_sec :: int
  tv_usec :: int

text \<open>
  A libevent event: the base it is bound to, whether it carries \<^verbatim>\<open>EV_PERSIST\<close>, and
  its callback together with the argument registered for it.
\<close>

datatype callback = Slog_fsync_tick | Pool_can_connect addr

record event =
  ev_base :: addr
  ev_persist :: bool
  ev_callback :: callback

record server_log =
  self :: int
  fd :: int
  fsync_tv :: timeval
  fsync_ev :: "event option"

record server =
  base :: addr
  cfg :: conf
  log :: server_log
  auth_logged :: int

subsection \<open>The pool, hiredis contexts and replies\<close>

text \<open>
  Modelled from the spec: \<^verbatim>\<open>pool.h\<close> and \<^verbatim>\<open>worker.h\<close>, which declare the pool and
  the worker, are not among the sources. The spec gives a pool its capacity, its slots
  (each empty or holding one handle), its owner and its configuration; the records
  hold these under the names \<^verbatim>\<open>pool.c\<close> uses (\<^verbatim>\<open>count\<close>, \<^verbatim>\<open>ac\<close>, \<^verbatim>\<open>w\<close>, \<^verbatim>\<open>cfg\<close>), and
  of the worker the event base that \<^verbatim>\<open>pool.c\<close> reads. Every worker points to the one
  server, so \<^verbatim>\<open>p->w->s\<close> is the server of the world.
\<close>

record worker =
  worker_base :: addr

record pool =
  count :: int
  ac :: "addr option list"
  pool_w :: worker
  pool_cfg :: conf

text \<open>
  hiredis: a \<^verbatim>\<open>redisAsyncContext\<close> with its own address (the pool stores and compares
  addresses), a \<^verbatim>\<open>redisReply\<close>, and the constants of \<^verbatim>\<open>hiredis.h\<close> and \<^verbatim>\<open>read.h\<close>
  that \<^verbatim>\<open>pool.c\<close> compares with.
\<close>

record redisAsyncContext =
  ctx_addr :: addr
  data :: "addr option"
  err :: int
  errstr :: "string option"

record redisReply =
  reply_type :: int
  reply_str :: "string option"

definition REDIS_OK :: int where "REDIS_OK = 0"
definition REDIS_ERR :: int where "REDIS_ERR = - 1"
definition REDIS_REPLY_STATUS :: int where "REDIS_REPLY_STATUS = 5"
definition REDIS_REPLY_ERROR :: int where "REDIS_REPLY_ERROR = 6"

record pool_reconnect =
  pr_ev :: event
  pr_p :: addr
  pr_tv :: timeval

subsection \<open>The world\<close>

text \<open>
  \<open>Write fd buf n\<close> is the call \<^verbatim>\<open>write(fd, buf, n)\<close>, with \<open>buf\<close> the string the
  buffer holds. \<open>Pool_connect p db attach\<close> is the call \<^verbatim>\<open>pool_connect(p, db, attach)\<close>:
  \<^verbatim>\<open>pool.c\<close> calls this function and no source file at hand defines it (the spec's
  \<^verbatim>\<open>request_connect(pool, db_index, is_reconnect)\<close>), so the call is recorded and
  nothing is said about what it does.
\<close>

datatype effect =
    Write int string nat
  | Fsync int
  | Free addr
  | Pool_connect addr int int

text \<open>
  \<open>now\<close> is what \<^verbatim>\<open>time\<close>, \<^verbatim>\<open>localtime_r\<close> and \<^verbatim>\<open>strftime\<close> produce for the
  format \<^verbatim>\<open>"%d %b %H:%M:%S"\<close>: \<open>None\<close> when \<^verbatim>\<open>localtime_r\<close> fails. \<open>next_alloc\<close> is
  the address the next \<^verbatim>\<open>malloc\<close> returns. \<open>calloc_ok\<close> tells whether a \<^verbatim>\<open>calloc\<close>
  whose result \<^verbatim>\<open>pool.c\<close> tests returns memory. \<open>msg_uninit\<close> is what \<^verbatim>\<open>%s\<close> reads
  at the buffer \<^verbatim>\<open>msg\<close> of \<^verbatim>\<open>slog_internal\<close> when nothing has been stored into it:
  the bytes the stack holds from the start of the buffer up to the first NUL,
  wherever that is.
\<close>

record world =
  srv :: server
  pools :: "addr \<Rightarrow> pool"
  reconnects :: "addr \<Rightarrow> pool_reconnect option"
  next_alloc :: addr
  timers :: "(event \<times> timeval) list"
  trace :: "effect list"
  now :: "string option"
  calloc_ok :: bool
  msg_uninit :: string

section \<open>\<^verbatim>\<open>slog.c\<close>\<close>

subsection \<open>Formatting\<close>

text \<open>
  \<open>snprintf n str\<close>, for the fully expanded output \<open>str\<close>: the characters stored
  before the terminating NUL, and the return value (the length of \<open>str\<close>, truncated
  or not). With \<open>n = 0\<close> nothing is stored.
\<close>

definition snprintf :: "nat \<Rightarrow> string \<Rightarrow> string \<times> nat" where
  "snprintf n str = (if n = 0 then [] else take (n - 1) str, length str)"

text \<open>The number of bytes \<open>snprintf n str\<close> stores, the NUL included.\<close>

definition snprintf_stored :: "nat \<Rightarrow> string \<Rightarrow> nat" where
  "snprintf_stored n str = (if n = 0 then 0 else length (fst (snprintf n str)) + 1)"

text \<open>
  A format with one directive \<^verbatim>\<open>%k\<close>, expanded with the text of its argument:
  \<open>expand (CHR ''s'') fmt a\<close> for \<^verbatim>\<open>%s\<close>.
\<close>

fun expand :: "char \<Rightarrow> string \<Rightarrow> string \<Rightarrow> string" where
  "expand k (c # d # r) a =
     (if c = CHR ''%'' \<and> d = k then a @ r else c # expand k (d # r) a)"
| "expand k r a = r"

text \<open>
  A C \<^verbatim>\<open>int\<close> has 32 bits, two's complement: \<open>int32\<close> brings a value into that range.
  \<open>show_int\<close> is what \<^verbatim>\<open>%d\<close> prints.
\<close>

definition int32 :: "int \<Rightarrow> int" where
  "int32 x = (x + 2 ^ 31) mod 2 ^ 32 - 2 ^ 31"

fun digits :: "nat \<Rightarrow> string" where
  "digits n =
     (if n < 10 then [''0123456789'' ! n]
      else digits (n div 10) @ [''0123456789'' ! (n mod 10)])"

definition show_int :: "int \<Rightarrow> string" where
  "show_int i = (if i < 0 then CHR ''-'' # digits (nat (- i)) else digits (nat i))"

text \<open>The line of \<^verbatim>\<open>slog_internal\<close>: the format \<^verbatim>\<open>"[%d] %s %c %s\n"\<close> expanded.\<close>

definition line_format :: "int \<Rightarrow> string \<Rightarrow> char \<Rightarrow> string \<Rightarrow> string" where
  "line_format pid time_buf letter msg =
     ''['' @ show_int (int32 pid) @ ''] '' @ time_buf @ '' '' @ [letter] @ '' '' @ msg
       @ [CHR 0x0A]"

subsection \<open>\<^verbatim>\<open>slog_enabled\<close>, \<^verbatim>\<open>slog_internal\<close>, \<^verbatim>\<open>slog\<close>\<close>

definition slog_enabled :: "server \<Rightarrow> log_level \<Rightarrow> int" where
  "slog_enabled s level = (if level_num level \<le> level_num (verbosity (cfg s)) then 1 else 0)"

text \<open>The sizes of the two stack buffers of \<^verbatim>\<open>slog_internal\<close>.\<close>

definition sizeof_msg :: "nat \<Rightarrow> nat" where
  "sizeof_msg M = 1 + M"

definition sizeof_line :: "nat \<Rightarrow> nat" where
  "sizeof_line M = 2 * M"

text \<open>The largest \<^verbatim>\<open>size_t\<close>, and a sum brought back into the type.\<close>

definition SIZE_MAX :: nat where
  "SIZE_MAX = 2 ^ 64 - 1"

definition size_t :: "nat \<Rightarrow> nat" where
  "size_t x = x mod 2 ^ 64"

text \<open>
  The size \<^verbatim>\<open>slog_internal\<close> passes to the \<^verbatim>\<open>snprintf\<close> that fills \<^verbatim>\<open>msg\<close>:
  \<^verbatim>\<open>sz+1 > sizeof(msg) ? sizeof(msg) : sz+1\<close>, with \<^verbatim>\<open>sz+1\<close> computed in \<^verbatim>\<open>size_t\<close>.
\<close>

definition msg_size_arg :: "nat \<Rightarrow> string \<Rightarrow> nat \<Rightarrow> nat" where
  "msg_size_arg M body sz =
     (let sz' = (if sz \<noteq> 0 then sz else length body)
      in if size_t (sz' + 1) > sizeof_msg M then sizeof_msg M else size_t (sz' + 1))"

text \<open>
  The message that goes into the line: what \<^verbatim>\<open>snprintf\<close> stored into \<^verbatim>\<open>msg\<close>, and what
  the buffer happened to hold when the size passed was 0.
\<close>

definition slog_msg :: "nat \<Rightarrow> string \<Rightarrow> nat \<Rightarrow> world \<Rightarrow> string" where
  "slog_msg M body sz wd =
     (if msg_size_arg M body sz = 0 then msg_uninit wd
      else fst (snprintf (msg_size_arg M body sz) body))"

definition slog_time_buf :: "world \<Rightarrow> string" where
  "slog_time_buf wd = (case now wd of Some t \<Rightarrow> t | None \<Rightarrow> ''(NO TIME AVAILABLE)'')"

definition slog_letter :: "log_level \<Rightarrow> char" where
  "slog_letter level =
     (if level = WEBDIS_TRACE then ''EWNIDT'' ! 5 else ''EWNIDT'' ! level_num level)"

text \<open>The expanded line, before it is stored into \<^verbatim>\<open>line\<close>.\<close>

definition slog_line :: "nat \<Rightarrow> log_level \<Rightarrow> string \<Rightarrow> nat \<Rightarrow> world \<Rightarrow> string" where
  "slog_line M level body sz wd =
     line_format (self (log (srv wd))) (slog_time_buf wd) (slog_letter level)
       (slog_msg M body sz wd)"

definition slog_internal :: "nat \<Rightarrow> log_level \<Rightarrow> string \<Rightarrow> nat \<Rightarrow> world \<Rightarrow> world" where
  "slog_internal M level body sz wd =
     (if fd (log (srv wd)) = 0 then wd
      else
        let (line, line_sz) = snprintf (sizeof_line M) (slog_line M level body sz wd);
            wd1 = wd\<lparr>trace := trace wd @ [Write (fd (log (srv wd))) line line_sz]\<rparr>
        in if mode (log_fsync (cfg (srv wd))) = LOG_FSYNC_ALL
           then wd1\<lparr>trace := trace wd1 @ [Fsync (fd (log (srv wd)))]\<rparr>
           else wd1)"

definition slog :: "nat \<Rightarrow> log_level \<Rightarrow> string \<Rightarrow> nat \<Rightarrow> world \<Rightarrow> world" where
  "slog M level body sz wd =
     (if level_num level \<le> level_num (verbosity (cfg (srv wd)))
      then slog_internal M level body sz wd else wd)"

subsection \<open>The periodic flush\<close>

definition slog_fsync_tick :: "world \<Rightarrow> world" where
  "slog_fsync_tick wd = wd\<lparr>trace := trace wd @ [Fsync (fd (log (srv wd)))]\<rparr>"

text \<open>
  \<open>event_new_ok\<close> tells whether \<^verbatim>\<open>event_new\<close> returns an event, \<open>ret_ta\<close> is what
  \<^verbatim>\<open>evtimer_add\<close> returns; the timer is pending only when that is 0.
  \<^verbatim>\<open>period_millis * 1000\<close> is a product of C \<^verbatim>\<open>int\<close>s, taken in 32 bits (where it
  does not fit, C leaves the result open and the model wraps around), and \<^verbatim>\<open>/\<close> and
  \<^verbatim>\<open>%\<close> truncate towards zero.
\<close>

definition slog_fsync_init :: "nat \<Rightarrow> bool \<Rightarrow> int \<Rightarrow> world \<Rightarrow> world" where
  "slog_fsync_init M event_new_ok ret_ta wd =
     (if mode (log_fsync (cfg (srv wd))) \<noteq> LOG_FSYNC_MILLIS then wd
      else if \<not> event_new_ok then
        (let evnew_error = ''fsync timer could not be created'';
             wd1 = wd\<lparr>srv := (srv wd)\<lparr>log := (log (srv wd))\<lparr>fsync_ev := None\<rparr>\<rparr>\<rparr>
         in slog M WEBDIS_ERROR evnew_error (length evnew_error) wd1)
      else
        (let e = \<lparr>ev_base = base (srv wd), ev_persist = True, ev_callback = Slog_fsync_tick\<rparr>;
             period_usec = int32 (period_millis (log_fsync (cfg (srv wd))) * 1000);
             tv = \<lparr>tv_sec = period_usec sdiv 1000000, tv_usec = period_usec smod 1000000\<rparr>;
             wd1 = wd\<lparr>srv := (srv wd)\<lparr>log := (log (srv wd))\<lparr>fsync_tv := tv, fsync_ev := Some e\<rparr>\<rparr>\<rparr>
         in if ret_ta \<noteq> 0 then
              (let reason = ''fsync timer could not be added: %d'';
                   (error_msg, error_len) =
                     snprintf (length reason + 1 + 16)
                       (expand (CHR ''d'') reason (show_int (int32 ret_ta)))
               in slog M WEBDIS_ERROR error_msg error_len wd1)
            else wd1\<lparr>timers := timers wd1 @ [(e, tv)]\<rparr>))"

section \<open>\<^verbatim>\<open>pool.c\<close>\<close>

subsection \<open>\<^verbatim>\<open>pool_new\<close>\<close>

text \<open>The pool structure and its slot array come zeroed from \<^verbatim>\<open>calloc\<close>.\<close>

definition pool_new :: "worker \<Rightarrow> int \<Rightarrow> world \<Rightarrow> addr \<times> world" where
  "pool_new w n wd =
     (let p = next_alloc wd
      in (p, wd\<lparr>next_alloc := p + 1,
                 pools := (pools wd)
                   (p := \<lparr>count = n, ac = replicate (nat n) None, pool_w = w,
                          pool_cfg = cfg (srv wd)\<rparr>)\<rparr>))"

subsection \<open>The Reconnect Task\<close>

definition pool_schedule_reconnect :: "addr \<Rightarrow> world \<Rightarrow> world" where
  "pool_schedule_reconnect p wd =
     (let pr = next_alloc wd;
          tv = \<lparr>tv_sec = 0, tv_usec = 100 * 1000\<rparr>;
          e = \<lparr>ev_base = worker_base (pool_w (pools wd p)), ev_persist = False,
               ev_callback = Pool_can_connect pr\<rparr>
      in wd\<lparr>next_alloc := pr + 1,
            reconnects := (reconnects wd)(pr \<mapsto> \<lparr>pr_ev = e, pr_p = p, pr_tv = tv\<rparr>),
            timers := timers wd @ [(e, tv)]\<rparr>)"

text \<open>
  \<^verbatim>\<open>pool_can_connect\<close> runs with the address registered by \<^verbatim>\<open>evtimer_set\<close>, which
  is a live task; for any other address the world is left as it is.
\<close>

definition pool_can_connect :: "addr \<Rightarrow> world \<Rightarrow> world" where
  "pool_can_connect ptr wd =
     (case reconnects wd ptr of
        None \<Rightarrow> wd
      | Some pr \<Rightarrow>
          let p = pr_p pr;
              wd1 = wd\<lparr>reconnects := (reconnects wd)(ptr := None),
                       trace := trace wd @ [Free ptr]\<rparr>
          in wd1\<lparr>trace := trace wd1 @ [Pool_connect p (database (pool_cfg (pools wd1 p))) 1]\<rparr>)"

subsection \<open>\<^verbatim>\<open>pool_on_connect\<close>\<close>

function pool_on_connect_loop :: "int \<Rightarrow> pool \<Rightarrow> addr \<Rightarrow> pool" where
  "pool_on_connect_loop i p a =
     (if i < count p then
        (if ac p ! nat i = None then p\<lparr>ac := (ac p)[nat i := Some a]\<rparr>
         else pool_on_connect_loop (i + 1) p a)
      else p)"
  by pat_completeness auto
termination
  by (relation "measure (\<lambda>(i, p, a). nat (count p - i))") auto

definition pool_on_connect :: "redisAsyncContext \<Rightarrow> int \<Rightarrow> world \<Rightarrow> world" where
  "pool_on_connect c status wd =
     (case data c of
        None \<Rightarrow> wd
      | Some p \<Rightarrow>
          if status = REDIS_ERR \<or> err c \<noteq> 0 then pool_schedule_reconnect p wd
          else wd\<lparr>pools := (pools wd)(p := pool_on_connect_loop 0 (pools wd p) (ctx_addr c))\<rparr>)"

subsection \<open>\<^verbatim>\<open>pool_on_disconnect\<close>\<close>

function pool_on_disconnect_loop :: "int \<Rightarrow> pool \<Rightarrow> addr \<Rightarrow> pool" where
  "pool_on_disconnect_loop i p a =
     (if i < count p then
        (if ac p ! nat i = Some a then p\<lparr>ac := (ac p)[nat i := None]\<rparr>
         else pool_on_disconnect_loop (i + 1) p a)
      else p)"
  by pat_completeness auto
termination
  by (relation "measure (\<lambda>(i, p, a). nat (count p - i))") auto

definition pool_on_disconnect :: "nat \<Rightarrow> redisAsyncContext \<Rightarrow> int \<Rightarrow> world \<Rightarrow> world" where
  "pool_on_disconnect M c status wd =
     (case data c of
        None \<Rightarrow> wd
      | Some p \<Rightarrow>
          let wd1 =
                (if status \<noteq> REDIS_OK then
                   let format = ''Error disconnecting: %s'';
                       msg_sz = (length format + 1) - 2
                                + (case errstr c of Some e \<Rightarrow> length e | None \<Rightarrow> 6)
                   in if calloc_ok wd then
                        let log_msg = fst (snprintf (msg_sz + 1)
                                        (expand (CHR ''s'') format
                                           (case errstr c of Some e \<Rightarrow> e
                                            | None \<Rightarrow> ''(null)'')))
                        in slog M WEBDIS_ERROR log_msg (msg_sz - 1) wd
                      else wd
                 else wd);
              wd2 = wd1\<lparr>pools := (pools wd1)
                         (p := pool_on_disconnect_loop 0 (pools wd1 p) (ctx_addr c))\<rparr>
          in pool_schedule_reconnect p wd2)"

subsection \<open>Reporting the outcome of authentication\<close>

definition pool_log_auth ::
  "nat \<Rightarrow> log_level \<Rightarrow> string \<Rightarrow> nat \<Rightarrow> string option \<Rightarrow> world \<Rightarrow> world" where
  "pool_log_auth M level format format_len str wd =
     (let msg_size = format_len - 2 + (case str of Some t \<Rightarrow> length t | None \<Rightarrow> 6) + 1
      in if calloc_ok wd then
           let msg = fst (snprintf msg_size
                       (expand (CHR ''s'') format
                          (case str of Some t \<Rightarrow> t | None \<Rightarrow> ''(null)'')))
           in slog M level msg (msg_size - 1) wd
         else wd)"

text \<open>
  The body between \<^verbatim>\<open>pthread_mutex_lock\<close> and \<^verbatim>\<open>pthread_mutex_unlock\<close> runs as one
  step; before the lock the function only tests its own argument.
\<close>

definition pool_on_auth_complete ::
  "nat \<Rightarrow> redisAsyncContext \<Rightarrow> redisReply option \<Rightarrow> addr \<Rightarrow> world \<Rightarrow> world" where
  "pool_on_auth_complete M c r pdata wd =
     (case r of
        None \<Rightarrow> wd
      | Some reply \<Rightarrow>
          if auth_logged (srv wd) \<noteq> 0 then wd
          else
            let err_format = ''Authentication failed: %s'';
                ok_format = ''Authentication succeeded: %s'';
                wd1 =
                  (if reply_type reply = REDIS_REPLY_ERROR then
                     pool_log_auth M WEBDIS_ERROR err_format (length err_format)
                       (reply_str reply) wd
                   else if reply_type reply = REDIS_REPLY_STATUS then
                     pool_log_auth M WEBDIS_INFO ok_format (length ok_format)
                       (reply_str reply) wd
                   else wd)
            in wd1\<lparr>srv := (srv wd1)\<lparr>auth_logged := int32 (auth_logged (srv wd1) + 1)\<rparr>\<rparr>)"

section \<open>Executions\<close>

text \<open>
  libevent, as far as the two files rely on it: when a pending timer expires its
  callback runs with the registered argument, and a timer without \<^verbatim>\<open>EV_PERSIST\<close> is
  no longer pending afterwards.
\<close>

definition run_callback :: "callback \<Rightarrow> world \<Rightarrow> world" where
  "run_callback cb wd =
     (case cb of
        Slog_fsync_tick \<Rightarrow> slog_fsync_tick wd
      | Pool_can_connect ptr \<Rightarrow> pool_can_connect ptr wd)"

definition fire :: "nat \<Rightarrow> world \<Rightarrow> world" where
  "fire i wd =
     (if i < length (timers wd) then
        let e = fst (timers wd ! i);
            wd1 = (if ev_persist e then wd
                   else wd\<lparr>timers := take i (timers wd) @ drop (Suc i) (timers wd)\<rparr>)
        in run_callback (ev_callback e) wd1
      else wd)"

text \<open>
  What can happen to the runtime, one step at a time: the callbacks hiredis invokes,
  a timer that expires, a message logged by the rest of the program, and memory
  running out or becoming available again.
\<close>

datatype run_event =
    Connect redisAsyncContext int
  | Disconnect redisAsyncContext int
  | Auth_complete redisAsyncContext "redisReply option" addr
  | Timer_fires nat
  | Log log_level string nat
  | Memory bool

fun step :: "nat \<Rightarrow> run_event \<Rightarrow> world \<Rightarrow> world" where
  "step M (Connect c status) wd = pool_on_connect c status wd"
| "step M (Disconnect c status) wd = pool_on_disconnect M c status wd"
| "step M (Auth_complete c r pdata) wd = pool_on_auth_complete M c r pdata wd"
| "step M (Timer_fires i) wd = fire i wd"
| "step M (Log level body sz) wd = slog M level body sz wd"
| "step M (Memory b) wd = wd\<lparr>calloc_ok := b\<rparr>"

fun run :: "nat \<Rightarrow> run_event list \<Rightarrow> world \<Rightarrow> world" where
  "run M [] wd = wd"
| "run M (e # es) wd = run M es (step M e wd)"

section \<open>Notions used in the statements\<close>

text \<open>The number of \<^verbatim>\<open>write\<close> calls in a trace.\<close>

fun is_write :: "effect \<Rightarrow> bool" where
  "is_write (Write f buf n) = True"
| "is_write e = False"

definition writes :: "world \<Rightarrow> nat" where
  "writes wd = length (filter is_write (trace wd))"

fun is_fsync :: "effect \<Rightarrow> bool" where
  "is_fsync (Fsync f) = True"
| "is_fsync e = False"

definition fsyncs :: "world \<Rightarrow> nat" where
  "fsyncs wd = length (filter is_fsync (trace wd))"

text \<open>The \<^verbatim>\<open>write\<close> calls made by the authentication callbacks of an execution.\<close>

fun auth_lines :: "nat \<Rightarrow> run_event list \<Rightarrow> world \<Rightarrow> nat" where
  "auth_lines M [] wd = 0"
| "auth_lines M (e # es) wd =
     (case e of
        Auth_complete c r pdata \<Rightarrow> writes (step M e wd) - writes wd
      | _ \<Rightarrow> 0)
     + auth_lines M es (step M e wd)"

text \<open>A sequence of completed authentication callbacks.\<close>

fun auth_run ::
  "nat \<Rightarrow> (redisAsyncContext \<times> redisReply option \<times> addr) list \<Rightarrow> world \<Rightarrow> world" where
  "auth_run M [] wd = wd"
| "auth_run M ((c, r, pdata) # cs) wd = auth_run M cs (pool_on_auth_complete M c r pdata wd)"

text \<open>What \<^verbatim>\<open>slog_internal\<close> appends to the trace when the sink is open.\<close>

definition emitted :: "nat \<Rightarrow> log_level \<Rightarrow> string \<Rightarrow> nat \<Rightarrow> world \<Rightarrow> effect list" where
  "emitted M level body sz wd =
     Write (fd (log (srv wd))) (fst (snprintf (sizeof_line M) (slog_line M level body sz wd)))
       (length (slog_line M level body sz wd))
     # (if mode (log_fsync (cfg (srv wd))) = LOG_FSYNC_ALL
        then [Fsync (fd (log (srv wd)))] else [])"

text \<open>Whether an event is the expiry of a pending periodic-flush timer.\<close>

definition fires_fsync_tick :: "run_event \<Rightarrow> world \<Rightarrow> bool" where
  "fires_fsync_tick e wd =
     (case e of
        Timer_fires i \<Rightarrow> i < length (timers wd) \<and> ev_callback (fst (timers wd ! i)) = Slog_fsync_tick
      | _ \<Rightarrow> False)"

text \<open>The first reply of a sequence of completions that is not \<^verbatim>\<open>NULL\<close>.\<close>

fun first_reply :: "(redisAsyncContext \<times> redisReply option \<times> addr) list \<Rightarrow> redisReply option" where
  "first_reply [] = None"
| "first_reply ((c, r, pdata) # cs) = (case r of None \<Rightarrow> first_reply cs | Some reply \<Rightarrow> Some reply)"

text \<open>The text of a reply as \<^verbatim>\<open>pool_log_auth\<close> prints it.\<close>

definition reply_text :: "redisReply \<Rightarrow> string" where
  "reply_text reply = (case reply_str reply of Some t \<Rightarrow> t | None \<Rightarrow> ''(null)'')"

text \<open>
  Whether the first reply of an execution makes an opened sink emit a line: the
  buffer for the message must be there, and the reply is an error reply, or a status
  reply while the info level is enabled.
\<close>

definition auth_line_due :: "world \<Rightarrow> redisReply \<Rightarrow> bool" where
  "auth_line_due wd reply =
     (calloc_ok wd
      \<and> (reply_type reply = REDIS_REPLY_ERROR
          \<or> (reply_type reply = REDIS_REPLY_STATUS
              \<and> level_num WEBDIS_INFO \<le> level_num (verbosity (cfg (srv wd))))))"

text \<open>
  The position of the first element of a list that satisfies \<open>P\<close>, and the length of
  the list when none does: what a linear scan from index 0 finds.
\<close>

definition first_index :: "('a \<Rightarrow> bool) \<Rightarrow> 'a list \<Rightarrow> nat" where
  "first_index P xs = length (takeWhile (\<lambda>x. \<not> P x) xs)"

text \<open>
  Slot exclusivity: the occupied slots hold pairwise different handles. A pool is in
  order when, besides, its slot array has \<open>count\<close> entries.
\<close>

definition slots_exclusive :: "addr option list \<Rightarrow> bool" where
  "slots_exclusive slots = distinct (filter (\<lambda>x. x \<noteq> None) slots)"

definition pool_ok :: "pool \<Rightarrow> bool" where
  "pool_ok p = (length (ac p) = nat (count p) \<and> slots_exclusive (ac p))"

text \<open>
  The life cycle of handles, as a condition on the events alone. \<open>live\<close> maps the
  address of every connected handle to its user data. A successful connect callback
  arrives for a handle that is not connected and connects it; a failed one connects
  nothing; a disconnect callback for a connected handle carries the user data the
  handle was connected with, and the handle is gone afterwards (its address may then
  serve a new handle).
\<close>

fun lifecycle :: "(addr \<Rightarrow> addr option option) \<Rightarrow> run_event list \<Rightarrow> bool" where
  "lifecycle live [] = True"
| "lifecycle live (Connect c status # es) =
     (if status = REDIS_ERR \<or> err c \<noteq> 0 then lifecycle live es
      else live (ctx_addr c) = None \<and> lifecycle (live(ctx_addr c \<mapsto> data c)) es)"
| "lifecycle live (Disconnect c status # es) =
     ((case live (ctx_addr c) of None \<Rightarrow> True | Some d \<Rightarrow> data c = d)
      \<and> lifecycle (live(ctx_addr c := None)) es)"
| "lifecycle live (e # es) = lifecycle live es"

text \<open>The handles a pool holds are connected, with the pool as their user data.\<close>

definition held_live :: "(addr \<Rightarrow> addr option option) \<Rightarrow> addr \<Rightarrow> pool \<Rightarrow> bool" where
  "held_live live q p =
     (\<forall>x \<in> set (ac p). case x of None \<Rightarrow> True | Some h \<Rightarrow> live h = Some (Some q))"

section \<open>Concrete inputs\<close>

text \<open>
  A server that logs to standard error up to the info level and never flushes,
  process 4242, a pool of two empty slots at every address, no timer pending, nothing
  logged yet, memory available. The instances below are computed in it.
\<close>

definition example_cfg :: conf where
  "example_cfg =
     \<lparr>database = 3, verbosity = WEBDIS_INFO,
      log_fsync = \<lparr>mode = LOG_FSYNC_AUTO, period_millis = 0\<rparr>\<rparr>"

definition example_world :: world where
  "example_world =
     \<lparr>srv = \<lparr>base = 1, cfg = example_cfg,
             log = \<lparr>self = 4242, fd = 2, fsync_tv = \<lparr>tv_sec = 0, tv_usec = 0\<rparr>,
                    fsync_ev = None\<rparr>,
             auth_logged = 0\<rparr>,
      pools = (\<lambda>a. \<lparr>count = 2, ac = [None, None], pool_w = \<lparr>worker_base = 7\<rparr>,
                       pool_cfg = example_cfg\<rparr>),
      reconnects = (\<lambda>a. None),
      next_alloc = 100,
      timers = [],
      trace = [],
      now = Some ''30 Oct 19:35:00'',
      calloc_ok = True,
      msg_uninit = []\<rparr>"

text \<open>The same world under the two other flush policies.\<close>

definition example_world_all :: world where
  "example_world_all =
     example_world\<lparr>srv := (srv example_world)
       \<lparr>cfg := example_cfg\<lparr>log_fsync := \<lparr>mode = LOG_FSYNC_ALL, period_millis = 0\<rparr>\<rparr>\<rparr>\<rparr>"

definition example_world_millis :: world where
  "example_world_millis =
     example_world\<lparr>srv := (srv example_world)
       \<lparr>cfg := example_cfg\<lparr>log_fsync := \<lparr>mode = LOG_FSYNC_MILLIS, period_millis = 2500\<rparr>\<rparr>\<rparr>\<rparr>"

text \<open>An example handle, attached to the pool at address 9.\<close>

definition example_ctx :: "addr \<Rightarrow> redisAsyncContext" where
  "example_ctx a =
     \<lparr>ctx_addr = a, data = Some 9, err = 0, errstr = Some ''Connection reset by peer''\<rparr>"

text \<open>An example reply of a given type.\<close>

definition example_reply :: "int \<Rightarrow> string \<Rightarrow> redisReply" where
  "example_reply ty s = \<lparr>reply_type = ty, reply_str = Some s\<rparr>"

text \<open>
  The same server told to flush every 2147484 milliseconds (35 minutes and 47.484
  seconds), the least period whose number of microseconds does not fit a C \<^verbatim>\<open>int\<close>.
\<close>

definition example_world_long :: world where
  "example_world_long =
     example_world\<lparr>srv := (srv example_world)
       \<lparr>cfg := example_cfg\<lparr>log_fsync := \<lparr>mode = LOG_FSYNC_MILLIS, period_millis = 2147484\<rparr>\<rparr>\<rparr>\<rparr>"


text \<open>The same server at a moment when \<^verbatim>\<open>calloc\<close> returns no memory.\<close>

definition example_world_no_memory :: world where
  "example_world_no_memory = example_world\<lparr>calloc_ok := False\<rparr>"

section \<open>Facts about the log sink used throughout\<close>

declare digits.simps [simp del]

lemma slog_internal_frame [simp]:
  "srv (slog_internal M level body sz wd) = srv wd"
  "pools (slog_internal M level body sz wd) = pools wd"
  "reconnects (slog_internal M level body sz wd) = reconnects wd"
  "next_alloc (slog_internal M level body sz wd) = next_alloc wd"
  "timers (slog_internal M level body sz wd) = timers wd"
  "now (slog_internal M level body sz wd) = now wd"
  "calloc_ok (slog_internal M level body sz wd) = calloc_ok wd"
  "msg_uninit (slog_internal M level body sz wd) = msg_uninit wd"
  by (simp_all add: slog_internal_def Let_def split: prod.splits)

lemma slog_frame [simp]:
  "srv (slog M level body sz wd) = srv wd"
  "pools (slog M level body sz wd) = pools wd"
  "reconnects (slog M level body sz wd) = reconnects wd"
  "next_alloc (slog M level body sz wd) = next_alloc wd"
  "timers (slog M level body sz wd) = timers wd"
  "now (slog M level body sz wd) = now wd"
  "calloc_ok (slog M level body sz wd) = calloc_ok wd"
  "msg_uninit (slog M level body sz wd) = msg_uninit wd"
  by (simp_all add: slog_def)

lemma slog_internal_trace:
  "fd (log (srv wd)) \<noteq> 0 \<Longrightarrow>
   trace (slog_internal M level body sz wd) = trace wd @ emitted M level body sz wd"
  by (simp add: slog_internal_def emitted_def snprintf_def Let_def)

lemma slog_internal_closed:
  "fd (log (srv wd)) = 0 \<Longrightarrow> slog_internal M level body sz wd = wd"
  by (simp add: slog_internal_def)

lemma slog_line_nonempty: "0 < length (slog_line M level body sz wd)"
  by (simp add: slog_line_def line_format_def)

lemma writes_emitted: "length (filter is_write (emitted M level body sz wd)) = 1"
  by (simp add: emitted_def)

section \<open>Facts about the concrete inputs\<close>

lemma example_world_facts [simp]:
  "fd (log (srv example_world)) = 2"
  "verbosity (cfg (srv example_world)) = WEBDIS_INFO"
  "mode (log_fsync (cfg (srv example_world))) = LOG_FSYNC_AUTO"
  "auth_logged (srv example_world) = 0"
  "trace example_world = []"
  "timers example_world = []"
  "next_alloc example_world = 100"
  "now example_world = Some ''30 Oct 19:35:00''"
  "self (log (srv example_world)) = 4242"
  "base (srv example_world) = 1"
  "calloc_ok example_world"
  "msg_uninit example_world = []"
  by (simp_all add: example_world_def example_cfg_def)

lemma example_world_all_facts [simp]:
  "fd (log (srv example_world_all)) = 2"
  "verbosity (cfg (srv example_world_all)) = WEBDIS_INFO"
  "mode (log_fsync (cfg (srv example_world_all))) = LOG_FSYNC_ALL"
  "trace example_world_all = []"
  "now example_world_all = Some ''30 Oct 19:35:00''"
  "self (log (srv example_world_all)) = 4242"
  "calloc_ok example_world_all"
  by (simp_all add: example_world_all_def example_world_def example_cfg_def)

lemma example_world_millis_facts [simp]:
  "fd (log (srv example_world_millis)) = 2"
  "verbosity (cfg (srv example_world_millis)) = WEBDIS_INFO"
  "mode (log_fsync (cfg (srv example_world_millis))) = LOG_FSYNC_MILLIS"
  "period_millis (log_fsync (cfg (srv example_world_millis))) = 2500"
  "trace example_world_millis = []"
  "timers example_world_millis = []"
  "base (srv example_world_millis) = 1"
  "calloc_ok example_world_millis"
  by (simp_all add: example_world_millis_def example_world_def example_cfg_def)

lemma example_world_no_memory_facts [simp]:
  "fd (log (srv example_world_no_memory)) = 2"
  "verbosity (cfg (srv example_world_no_memory)) = WEBDIS_INFO"
  "auth_logged (srv example_world_no_memory) = 0"
  "trace example_world_no_memory = []"
  "\<not> calloc_ok example_world_no_memory"
  by (simp_all add: example_world_no_memory_def example_world_def example_cfg_def)

lemma example_pools [simp]:
  "pools example_world a =
     \<lparr>count = 2, ac = [None, None], pool_w = \<lparr>worker_base = 7\<rparr>, pool_cfg = example_cfg\<rparr>"
  by (simp add: example_world_def)

lemma example_ctx_facts [simp]:
  "data (example_ctx a) = Some 9"
  "ctx_addr (example_ctx a) = a"
  "err (example_ctx a) = 0"
  "errstr (example_ctx a) = Some ''Connection reset by peer''"
  by (simp_all add: example_ctx_def)

lemma example_reply_facts [simp]:
  "reply_type (example_reply ty s) = ty"
  "reply_str (example_reply ty s) = Some s"
  "reply_text (example_reply ty s) = s"
  by (simp_all add: example_reply_def reply_text_def)

section \<open>Level gating (C7)\<close>

text \<open>
  C7. On a sink that has been opened (its descriptor is not 0), \<open>slog\<close> with a level
  numerically above the verbosity threshold leaves the world as it is: no call of
  \<^verbatim>\<open>write\<close>, nothing else either. With a level at or below the threshold it issues
  one \<^verbatim>\<open>write\<close> of a positive number of bytes on the sink's descriptor. The gate is
  the one \<open>slog_enabled\<close> computes: 1 exactly when the level is numerically at most
  the threshold, and a line is written exactly when it is not 0.
\<close>

theorem slog_level_gate:
  assumes "fd (log (srv wd)) \<noteq> 0"
  shows "(level_num (verbosity (cfg (srv wd))) < level_num level \<longrightarrow>
           slog M level body sz wd = wd)
       \<and> (level_num level \<le> level_num (verbosity (cfg (srv wd))) \<longrightarrow>
           trace (slog M level body sz wd) =
             trace wd @
               Write (fd (log (srv wd)))
                 (fst (snprintf (sizeof_line M) (slog_line M level body sz wd)))
                 (length (slog_line M level body sz wd))
               # (if mode (log_fsync (cfg (srv wd))) = LOG_FSYNC_ALL
                  then [Fsync (fd (log (srv wd)))] else [])
           \<and> 0 < length (slog_line M level body sz wd))
       \<and> slog_enabled (srv wd) level =
           (if level_num level \<le> level_num (verbosity (cfg (srv wd))) then 1 else 0)
       \<and> writes (slog M level body sz wd) =
           writes wd + (if slog_enabled (srv wd) level \<noteq> 0 then 1 else 0)"
  using assms slog_internal_trace [OF assms, of M level body sz]
    slog_line_nonempty [of M level body sz wd]
  by (simp add: slog_def slog_enabled_def writes_def emitted_def)

theorem slog_level_gate_witness:
  "fd (log (srv example_world)) \<noteq> 0
   \<and> level_num (verbosity (cfg (srv example_world))) < level_num WEBDIS_DEBUG
   \<and> slog 124 WEBDIS_DEBUG ''dropped'' 7 example_world = example_world
   \<and> level_num WEBDIS_WARNING \<le> level_num (verbosity (cfg (srv example_world)))
   \<and> trace (slog 124 WEBDIS_WARNING ''kept'' 4 example_world) =
       [Write 2 (''[4242] 30 Oct 19:35:00 W kept'' @ [CHR 0x0A]) 30]
   \<and> slog_enabled (srv example_world) WEBDIS_DEBUG = 0
   \<and> slog_enabled (srv example_world) WEBDIS_WARNING = 1
   \<and> writes (slog 124 WEBDIS_WARNING ''kept'' 4 example_world) = 1"
proof -
  have h: "fd (log (srv example_world)) \<noteq> 0"
    by (simp add: example_world_def)
  have a: "level_num (verbosity (cfg (srv example_world))) < level_num WEBDIS_DEBUG"
    by (simp add: example_world_def example_cfg_def)
  have b: "level_num WEBDIS_WARNING \<le> level_num (verbosity (cfg (srv example_world)))"
    by (simp add: example_world_def example_cfg_def)
  have l: "slog_line 124 WEBDIS_WARNING ''kept'' 4 example_world =
             ''[4242] 30 Oct 19:35:00 W kept'' @ [CHR 0x0A]"
    by (simp add: slog_line_def line_format_def slog_time_buf_def slog_letter_def
        slog_msg_def msg_size_arg_def size_t_def sizeof_msg_def snprintf_def show_int_def
        int32_def digits.simps example_world_def)
  show ?thesis
    using h a b slog_level_gate [OF h, of WEBDIS_DEBUG 124 "''dropped''" 7]
      slog_level_gate [OF h, of WEBDIS_WARNING 124 "''kept''" 4]
    by (simp add: l snprintf_def sizeof_line_def)
      (simp add: example_world_def example_cfg_def writes_def)
qed

section \<open>Callbacks of a handle with no pool attached (C10)\<close>

text \<open>
  C10. When the handle's user data is \<^verbatim>\<open>NULL\<close>, the connect callback and the
  disconnect callback return the world they were given, whatever the status: no slot
  of any pool changes, no line is written (also for an unclean disconnect), no timer
  is added, so no Reconnect Task exists for this connection.
\<close>

theorem callbacks_without_pool:
  assumes "data c = None"
  shows "pool_on_connect c status wd = wd
       \<and> pool_on_disconnect M c status wd = wd
       \<and> pools (pool_on_connect c status wd) = pools wd
       \<and> pools (pool_on_disconnect M c status wd) = pools wd
       \<and> trace (pool_on_connect c status wd) = trace wd
       \<and> trace (pool_on_disconnect M c status wd) = trace wd
       \<and> timers (pool_on_connect c status wd) = timers wd
       \<and> timers (pool_on_disconnect M c status wd) = timers wd"
  using assms by (simp add: pool_on_connect_def pool_on_disconnect_def)

theorem callbacks_without_pool_witness:
  "data \<lparr>ctx_addr = 5, data = None, err = 1, errstr = Some ''Connection refused''\<rparr> = None
   \<and> pool_on_connect \<lparr>ctx_addr = 5, data = None, err = 1, errstr = Some ''Connection refused''\<rparr>
       REDIS_ERR example_world = example_world
   \<and> pool_on_disconnect 124
       \<lparr>ctx_addr = 5, data = None, err = 1, errstr = Some ''Connection refused''\<rparr>
       REDIS_ERR example_world = example_world
   \<and> trace (pool_on_disconnect 124
       \<lparr>ctx_addr = 5, data = None, err = 1, errstr = Some ''Connection refused''\<rparr>
       REDIS_ERR example_world) = []
   \<and> timers (pool_on_disconnect 124
       \<lparr>ctx_addr = 5, data = None, err = 1, errstr = Some ''Connection refused''\<rparr>
       REDIS_ERR example_world) = []"
  using callbacks_without_pool
    [of "\<lparr>ctx_addr = 5, data = None, err = 1, errstr = Some ''Connection refused''\<rparr>"
      REDIS_ERR example_world 124]
  by simp

section \<open>Facts about the pool and the timers used throughout\<close>

lemma pool_schedule_reconnect_frame [simp]:
  "srv (pool_schedule_reconnect p wd) = srv wd"
  "pools (pool_schedule_reconnect p wd) = pools wd"
  "trace (pool_schedule_reconnect p wd) = trace wd"
  "now (pool_schedule_reconnect p wd) = now wd"
  "calloc_ok (pool_schedule_reconnect p wd) = calloc_ok wd"
  "msg_uninit (pool_schedule_reconnect p wd) = msg_uninit wd"
  "next_alloc (pool_schedule_reconnect p wd) = next_alloc wd + 1"
  by (simp_all add: pool_schedule_reconnect_def Let_def)

lemma pool_schedule_reconnect_timers:
  "timers (pool_schedule_reconnect p wd) =
     timers wd @
       [(\<lparr>ev_base = worker_base (pool_w (pools wd p)), ev_persist = False,
          ev_callback = Pool_can_connect (next_alloc wd)\<rparr>,
         \<lparr>tv_sec = 0, tv_usec = 100000\<rparr>)]"
  by (simp add: pool_schedule_reconnect_def Let_def)

lemma fsyncs_slog:
  "mode (log_fsync (cfg (srv wd))) \<noteq> LOG_FSYNC_ALL \<Longrightarrow>
   fsyncs (slog M level body sz wd) = fsyncs wd"
  by (simp add: slog_def slog_internal_def fsyncs_def snprintf_def Let_def)

lemma pool_on_connect_trace [simp]: "trace (pool_on_connect c status wd) = trace wd"
  by (simp add: pool_on_connect_def split: option.splits)

lemma fsyncs_pool_on_disconnect:
  "mode (log_fsync (cfg (srv wd))) \<noteq> LOG_FSYNC_ALL \<Longrightarrow>
   fsyncs (pool_on_disconnect M c status wd) = fsyncs wd"
  using fsyncs_slog [of wd]
  by (simp add: pool_on_disconnect_def fsyncs_def Let_def split: option.splits)

lemma fsyncs_pool_on_auth_complete:
  "mode (log_fsync (cfg (srv wd))) \<noteq> LOG_FSYNC_ALL \<Longrightarrow>
   fsyncs (pool_on_auth_complete M c r pdata wd) = fsyncs wd"
  using fsyncs_slog [of wd]
  by (simp add: pool_on_auth_complete_def pool_log_auth_def fsyncs_def Let_def
      split: option.splits)

lemma fsyncs_fire:
  "fsyncs (fire i wd) = fsyncs wd + (if fires_fsync_tick (Timer_fires i) wd then 1 else 0)"
  by (simp add: fire_def fires_fsync_tick_def run_callback_def slog_fsync_tick_def
      pool_can_connect_def fsyncs_def Let_def split: callback.splits option.splits)

lemma fsyncs_step:
  "mode (log_fsync (cfg (srv wd))) \<noteq> LOG_FSYNC_ALL \<Longrightarrow>
   fsyncs (step M e wd) = fsyncs wd + (if fires_fsync_tick e wd then 1 else 0)"
proof (cases e)
  case (Timer_fires i)
  then show ?thesis by (simp add: fsyncs_fire)
next
  case (Connect c status)
  then show ?thesis by (simp add: fires_fsync_tick_def fsyncs_def)
next
  case (Memory b)
  then show ?thesis by (simp add: fires_fsync_tick_def fsyncs_def)
qed (simp_all add: fsyncs_slog fsyncs_pool_on_disconnect fsyncs_pool_on_auth_complete
    fires_fsync_tick_def)

lemma int32_id: "0 \<le> x \<Longrightarrow> x < 2 ^ 31 \<Longrightarrow> int32 x = x"
  by (simp add: int32_def)

lemma period_split:
  assumes "0 \<le> n" "n * 1000 < 2 ^ 31"
  shows "int32 (n * 1000) sdiv 1000000 * 1000000 + int32 (n * 1000) smod 1000000 = n * 1000"
    and "0 \<le> int32 (n * 1000) smod 1000000" and "int32 (n * 1000) smod 1000000 < 1000000"
    and "int32 (n * 1000) sdiv 1000000 = n div 1000"
proof -
  have e: "int32 (n * 1000) = n * 1000"
    using assms by (intro int32_id) auto
  show "int32 (n * 1000) sdiv 1000000 * 1000000 + int32 (n * 1000) smod 1000000 = n * 1000"
    by (simp add: e sdiv_mult_smod_eq)
  show "0 \<le> int32 (n * 1000) smod 1000000" "int32 (n * 1000) smod 1000000 < 1000000"
    using assms by (simp_all add: e signed_modulo_int_def sgn_if)
  show "int32 (n * 1000) sdiv 1000000 = n div 1000"
    using assms by (simp add: e signed_divide_int_def sgn_if)
qed

lemma slog_line_example:
  "self (log (srv wd)) = 4242 \<Longrightarrow> now wd = Some ''30 Oct 19:35:00'' \<Longrightarrow>
   slog_line 124 WEBDIS_ERROR ''down'' 4 wd = ''[4242] 30 Oct 19:35:00 E down'' @ [CHR 0x0A]"
  by (simp add: slog_line_def line_format_def slog_time_buf_def slog_letter_def slog_msg_def
      msg_size_arg_def size_t_def sizeof_msg_def snprintf_def show_int_def int32_def
      digits.simps)

section \<open>Facts about the flush policy\<close>

text \<open>
  Under \<^verbatim>\<open>LOG_FSYNC_ALL\<close> (every write) an emitted \<open>slog\<close> appends the
  \<^verbatim>\<open>write\<close> and, right after it and before it returns, the \<^verbatim>\<open>fsync\<close> of the same
  descriptor. Under the two other policies no \<open>slog\<close> adds an \<^verbatim>\<open>fsync\<close>, and no step
  of the runtime does except the expiry of a pending periodic-flush timer, which adds
  exactly one. Under \<^verbatim>\<open>LOG_FSYNC_AUTO\<close> (never) \<open>slog_fsync_init\<close> changes nothing, so
  it installs no timer. Under \<^verbatim>\<open>LOG_FSYNC_MILLIS\<close>, when libevent creates and adds the
  event, \<open>slog_fsync_init\<close> adds one persistent timer on the server's base whose
  callback is \<open>slog_fsync_tick\<close>, and its expiry flushes the sink and leaves the timer
  pending. The period of that timer is the configured number of milliseconds as long
  as that number is not negative and its product with 1000 fits a C \<^verbatim>\<open>int\<close>, that is,
  up to 2147483.
\<close>

lemma fsync_policy_in_range:
  shows "(mode (log_fsync (cfg (srv wd))) = LOG_FSYNC_ALL \<and> fd (log (srv wd)) \<noteq> 0
          \<and> level_num level \<le> level_num (verbosity (cfg (srv wd))) \<longrightarrow>
            trace (slog M level body sz wd) =
              trace wd @
                [Write (fd (log (srv wd)))
                   (fst (snprintf (sizeof_line M) (slog_line M level body sz wd)))
                   (length (slog_line M level body sz wd)),
                 Fsync (fd (log (srv wd)))])
       \<and> (mode (log_fsync (cfg (srv wd))) \<noteq> LOG_FSYNC_ALL \<longrightarrow>
            fsyncs (slog M level body sz wd) = fsyncs wd
            \<and> fsyncs (step M e wd) = fsyncs wd + (if fires_fsync_tick e wd then 1 else 0))
       \<and> (mode (log_fsync (cfg (srv wd))) = LOG_FSYNC_AUTO \<longrightarrow>
            slog_fsync_init M event_new_ok ret_ta wd = wd)
       \<and> (mode (log_fsync (cfg (srv wd))) = LOG_FSYNC_MILLIS \<and> event_new_ok \<and> ret_ta = 0 \<longrightarrow>
            timers (slog_fsync_init M event_new_ok ret_ta wd) =
              timers wd @
                [(\<lparr>ev_base = base (srv wd), ev_persist = True, ev_callback = Slog_fsync_tick\<rparr>,
                  fsync_tv (log (srv (slog_fsync_init M event_new_ok ret_ta wd))))]
            \<and> trace (slog_fsync_init M event_new_ok ret_ta wd) = trace wd
            \<and> fire (length (timers wd)) (slog_fsync_init M event_new_ok ret_ta wd) =
                (slog_fsync_init M event_new_ok ret_ta wd)
                  \<lparr>trace := trace wd @ [Fsync (fd (log (srv wd)))]\<rparr>)
       \<and> (mode (log_fsync (cfg (srv wd))) = LOG_FSYNC_MILLIS \<and> event_new_ok \<and> ret_ta = 0
          \<and> 0 \<le> period_millis (log_fsync (cfg (srv wd)))
          \<and> period_millis (log_fsync (cfg (srv wd))) * 1000 < 2 ^ 31 \<longrightarrow>
            tv_sec (fsync_tv (log (srv (slog_fsync_init M event_new_ok ret_ta wd)))) * 1000000
              + tv_usec (fsync_tv (log (srv (slog_fsync_init M event_new_ok ret_ta wd))))
              = period_millis (log_fsync (cfg (srv wd))) * 1000
            \<and> 0 \<le> tv_usec (fsync_tv (log (srv (slog_fsync_init M event_new_ok ret_ta wd))))
            \<and> tv_usec (fsync_tv (log (srv (slog_fsync_init M event_new_ok ret_ta wd)))) < 1000000)"
proof (intro conjI impI)
  assume a: "mode (log_fsync (cfg (srv wd))) = LOG_FSYNC_ALL \<and> fd (log (srv wd)) \<noteq> 0
          \<and> level_num level \<le> level_num (verbosity (cfg (srv wd)))"
  then show "trace (slog M level body sz wd) =
              trace wd @
                [Write (fd (log (srv wd)))
                   (fst (snprintf (sizeof_line M) (slog_line M level body sz wd)))
                   (length (slog_line M level body sz wd)),
                 Fsync (fd (log (srv wd)))]"
    by (simp add: slog_def slog_internal_trace emitted_def)
next
  assume "mode (log_fsync (cfg (srv wd))) \<noteq> LOG_FSYNC_ALL"
  then show "fsyncs (slog M level body sz wd) = fsyncs wd"
    and "fsyncs (step M e wd) = fsyncs wd + (if fires_fsync_tick e wd then 1 else 0)"
    by (simp_all add: fsyncs_slog fsyncs_step)
next
  assume "mode (log_fsync (cfg (srv wd))) = LOG_FSYNC_AUTO"
  then show "slog_fsync_init M event_new_ok ret_ta wd = wd"
    by (simp add: slog_fsync_init_def)
next
  assume a: "mode (log_fsync (cfg (srv wd))) = LOG_FSYNC_MILLIS \<and> event_new_ok \<and> ret_ta = 0"
  then show "timers (slog_fsync_init M event_new_ok ret_ta wd) =
              timers wd @
                [(\<lparr>ev_base = base (srv wd), ev_persist = True, ev_callback = Slog_fsync_tick\<rparr>,
                  fsync_tv (log (srv (slog_fsync_init M event_new_ok ret_ta wd))))]"
    and "trace (slog_fsync_init M event_new_ok ret_ta wd) = trace wd"
    and "fire (length (timers wd)) (slog_fsync_init M event_new_ok ret_ta wd) =
                (slog_fsync_init M event_new_ok ret_ta wd)
                  \<lparr>trace := trace wd @ [Fsync (fd (log (srv wd)))]\<rparr>"
    by (simp_all add: slog_fsync_init_def Let_def fire_def run_callback_def slog_fsync_tick_def)
next
  assume a: "mode (log_fsync (cfg (srv wd))) = LOG_FSYNC_MILLIS \<and> event_new_ok \<and> ret_ta = 0
          \<and> 0 \<le> period_millis (log_fsync (cfg (srv wd)))
          \<and> period_millis (log_fsync (cfg (srv wd))) * 1000 < 2 ^ 31"
  then have r: "0 \<le> period_millis (log_fsync (cfg (srv wd)))"
    "period_millis (log_fsync (cfg (srv wd))) * 1000 < 2 ^ 31"
    by simp_all
  from a period_split [OF r]
  show "tv_sec (fsync_tv (log (srv (slog_fsync_init M event_new_ok ret_ta wd)))) * 1000000
              + tv_usec (fsync_tv (log (srv (slog_fsync_init M event_new_ok ret_ta wd))))
              = period_millis (log_fsync (cfg (srv wd))) * 1000"
    and "0 \<le> tv_usec (fsync_tv (log (srv (slog_fsync_init M event_new_ok ret_ta wd))))"
    and "tv_usec (fsync_tv (log (srv (slog_fsync_init M event_new_ok ret_ta wd)))) < 1000000"
    by (simp_all add: slog_fsync_init_def Let_def)
qed


lemma fsync_policy_in_range_example:
  "trace (slog 124 WEBDIS_ERROR ''down'' 4 example_world_all) =
     [Write 2 (''[4242] 30 Oct 19:35:00 E down'' @ [CHR 0x0A]) 30, Fsync 2]
   \<and> fsyncs (slog 124 WEBDIS_ERROR ''down'' 4 example_world_millis) = 0
   \<and> fsyncs (step 124 (Log WEBDIS_ERROR ''down'' 4) example_world_millis) = 0
   \<and> slog_fsync_init 124 True 0 example_world = example_world
   \<and> timers (slog_fsync_init 124 True 0 example_world_millis) =
       [(\<lparr>ev_base = 1, ev_persist = True, ev_callback = Slog_fsync_tick\<rparr>,
         \<lparr>tv_sec = 2, tv_usec = 500000\<rparr>)]
   \<and> trace (fire 0 (slog_fsync_init 124 True 0 example_world_millis)) = [Fsync 2]
   \<and> timers (fire 0 (slog_fsync_init 124 True 0 example_world_millis)) =
       timers (slog_fsync_init 124 True 0 example_world_millis)"
proof -
  have tv: "fsync_tv (log (srv (slog_fsync_init 124 True 0 example_world_millis))) =
              \<lparr>tv_sec = 2, tv_usec = 500000\<rparr>"
    by (simp add: slog_fsync_init_def Let_def int32_def signed_divide_int_def
        signed_modulo_int_def)
  have a: "trace (slog 124 WEBDIS_ERROR ''down'' 4 example_world_all) =
     [Write 2 (''[4242] 30 Oct 19:35:00 E down'' @ [CHR 0x0A]) 30, Fsync 2]"
    using fsync_policy_in_range [of example_world_all WEBDIS_ERROR 124 "''down''" 4]
    by (simp add: slog_line_example snprintf_def sizeof_line_def)
  have b: "fsyncs (slog 124 WEBDIS_ERROR ''down'' 4 example_world_millis) = 0
     \<and> fsyncs (step 124 (Log WEBDIS_ERROR ''down'' 4) example_world_millis) = 0"
    using fsync_policy_in_range [of example_world_millis WEBDIS_ERROR 124 "''down''" 4
        "Log WEBDIS_ERROR ''down'' 4"]
    by (simp add: fsyncs_def fires_fsync_tick_def)
  have c: "slog_fsync_init 124 True 0 example_world = example_world"
    using fsync_policy_in_range [of example_world WEBDIS_ERROR 124 "''down''" 4
        "Log WEBDIS_ERROR ''down'' 4" True 0]
    by simp
  have d: "timers (slog_fsync_init 124 True 0 example_world_millis) =
       [(\<lparr>ev_base = 1, ev_persist = True, ev_callback = Slog_fsync_tick\<rparr>,
         \<lparr>tv_sec = 2, tv_usec = 500000\<rparr>)]
     \<and> fire 0 (slog_fsync_init 124 True 0 example_world_millis) =
         (slog_fsync_init 124 True 0 example_world_millis)\<lparr>trace := [Fsync 2]\<rparr>"
    using fsync_policy_in_range [of example_world_millis WEBDIS_ERROR 124 "''down''" 4
        "Log WEBDIS_ERROR ''down'' 4" True 0]
    by (simp add: tv)
  show ?thesis
    using a b c d by simp
qed

section \<open>Flush policy (C9)\<close>

text \<open>
  C9. Under the periodic policy the sink is to be flushed by a recurring timer of
  \<open>n\<close> milliseconds, \<open>n\<close> the configured period. \<open>slog_fsync_init\<close> computes the
  period in microseconds as the \<^verbatim>\<open>int\<close> product \<^verbatim>\<open>period_millis * 1000\<close>, which does
  not fit from \<open>n = 2147484\<close> on. For that \<open>n\<close> the product wraps around to
  \<open>-2147483296\<close> and the time handed to \<^verbatim>\<open>evtimer_add\<close> is \<open>-2147\<close> seconds and
  \<open>-483296\<close> microseconds. When \<^verbatim>\<open>evtimer_add\<close> accepts it, the timer that is pending
  has this period and not 2147 seconds and 484000 microseconds; when \<^verbatim>\<open>evtimer_add\<close>
  refuses it, no timer is pending at all and the one thing done is an error line.
  Either way no timer of \<open>n\<close> milliseconds flushes the sink.
\<close>

theorem fsync_period_overflow:
  "mode (log_fsync (cfg (srv example_world_long))) = LOG_FSYNC_MILLIS
   \<and> period_millis (log_fsync (cfg (srv example_world_long))) = 2147484
   \<and> int32 (period_millis (log_fsync (cfg (srv example_world_long))) * 1000) = - 2147483296
   \<and> timers (slog_fsync_init 124 True 0 example_world_long) =
       [(\<lparr>ev_base = 1, ev_persist = True, ev_callback = Slog_fsync_tick\<rparr>,
         \<lparr>tv_sec = - 2147, tv_usec = - 483296\<rparr>)]
   \<and> timers (slog_fsync_init 124 True (- 1) example_world_long) = []
   \<and> trace (slog_fsync_init 124 True (- 1) example_world_long) =
       [Write 2 (''[4242] 30 Oct 19:35:00 E fsync timer could not be added: -1'' @ [CHR 0x0A])
          60]"
  by (simp add: example_world_long_def example_world_def example_cfg_def
      slog_fsync_init_def Let_def int32_def signed_divide_int_def signed_modulo_int_def
      snprintf_def show_int_def digits.simps slog_def slog_internal_def slog_line_def
      line_format_def slog_time_buf_def slog_letter_def slog_msg_def msg_size_arg_def
      size_t_def sizeof_msg_def sizeof_line_def)

section \<open>Facts about formatting\<close>

lemma digits_length: "0 < k \<Longrightarrow> n < 10 ^ k \<Longrightarrow> length (digits n) \<le> k"
proof (induction k arbitrary: n)
  case 0
  then show ?case by simp
next
  case (Suc k)
  show ?case
  proof (cases "n < 10")
    case True
    then show ?thesis by (simp add: digits.simps [of n])
  next
    case False
    with Suc.prems have k: "0 < k"
      by (cases k) auto
    from Suc.prems have "n div 10 < 10 ^ k"
      by (simp add: less_mult_imp_div_less mult.commute)
    with Suc.IH k have "length (digits (n div 10)) \<le> k"
      by blast
    with False show ?thesis
      by (simp add: digits.simps [of n])
  qed
qed

lemma int32_range: "- (2 ^ 31) \<le> int32 x \<and> int32 x < 2 ^ 31"
proof -
  have "0 \<le> (x + 2 ^ 31) mod 2 ^ 32" and "(x + 2 ^ 31) mod 2 ^ 32 < (2 ^ 32 :: int)"
    by simp_all
  then show ?thesis
    unfolding int32_def by simp
qed

lemma show_int32_length: "length (show_int (int32 x)) \<le> 11"
proof -
  have r: "- (2 ^ 31) \<le> int32 x" "int32 x < 2 ^ 31"
    using int32_range [of x] by simp_all
  have "nat \<bar>int32 x\<bar> < 10 ^ 10"
    using r by simp
  then have "length (digits (nat \<bar>int32 x\<bar>)) \<le> 10"
    by (intro digits_length) simp_all
  then show ?thesis
    by (cases "int32 x < 0") (simp_all add: show_int_def)
qed

lemma msg_size_arg_le: "msg_size_arg M body sz \<le> sizeof_msg M"
  by (simp add: msg_size_arg_def Let_def)

lemma msg_size_arg_in_range:
  assumes "(if sz \<noteq> 0 then sz else length body) < SIZE_MAX"
  shows "msg_size_arg M body sz =
           min (sizeof_msg M) ((if sz \<noteq> 0 then sz else length body) + 1)"
proof -
  have "size_t ((if sz \<noteq> 0 then sz else length body) + 1) =
          (if sz \<noteq> 0 then sz else length body) + 1"
    using assms unfolding size_t_def SIZE_MAX_def by (intro mod_less) simp
  then show ?thesis
    unfolding msg_size_arg_def Let_def by (simp add: min_def)
qed

lemma snprintf_stored_le: "snprintf_stored n str \<le> n"
  by (cases n) (simp_all add: snprintf_stored_def snprintf_def)

lemma slog_msg_truncated:
  assumes "(if sz \<noteq> 0 then sz else length body) < SIZE_MAX"
  shows "slog_msg M body sz wd = take M (take (if sz \<noteq> 0 then sz else length body) body)"
  unfolding slog_msg_def msg_size_arg_in_range [OF assms]
  by (simp add: snprintf_def sizeof_msg_def min_def)

lemma slog_line_length:
  assumes "(if sz \<noteq> 0 then sz else length body) < SIZE_MAX"
  shows "length (slog_line M level body sz wd) \<le> length (slog_time_buf wd) + M + 18"
proof -
  have "length (slog_msg M body sz wd) \<le> M"
    by (simp add: slog_msg_truncated [OF assms])
  then show ?thesis
    using show_int32_length [of "self (log (srv wd))"]
    by (simp add: slog_line_def line_format_def)
qed

section \<open>Facts about the truncation of the message\<close>

text \<open>
  As long as the size of the message, \<open>sz\<close> or the length of the body for \<open>sz = 0\<close>,
  is below \<open>SIZE_MAX\<close>: the \<^verbatim>\<open>snprintf\<close> that fills \<^verbatim>\<open>msg\<close> stores at least the
  terminating NUL and at most \<open>sizeof_msg M\<close> bytes, and the one that fills \<^verbatim>\<open>line\<close> at
  most \<open>sizeof_line M\<close> bytes; the message that goes into the line is the body cut to
  that size and then to \<open>M\<close> characters. The whole line fits the line buffer, and the
  count handed to \<^verbatim>\<open>write\<close> is its length, below the size of the buffer, whenever the
  time stamp is at least 19 characters shorter than \<open>M\<close>. The buffer for the time stamp
  has 64 bytes, so this covers every time stamp once \<open>M\<close> is 82 or more, and for the
  least \<open>M\<close> the file accepts, 64, every time stamp of at most 45 characters: the
  format yields 15 in the C locale and the placeholder has 19.
\<close>

lemma slog_truncation_in_range:
  assumes "(if sz \<noteq> 0 then sz else length body) < SIZE_MAX"
  shows "0 < msg_size_arg M body sz
   \<and> snprintf_stored (msg_size_arg M body sz) body \<le> sizeof_msg M
   \<and> snprintf_stored (sizeof_line M) (slog_line M level body sz wd) \<le> sizeof_line M
   \<and> slog_msg M body sz wd = take M (take (if sz \<noteq> 0 then sz else length body) body)
   \<and> length (slog_msg M body sz wd) \<le> M
   \<and> (length (slog_time_buf wd) + 19 \<le> M \<longrightarrow>
        length (slog_line M level body sz wd) < sizeof_line M
        \<and> trace (slog_internal M level body sz wd) =
            trace wd @
              (if fd (log (srv wd)) = 0 then []
               else Write (fd (log (srv wd))) (slog_line M level body sz wd)
                      (length (slog_line M level body sz wd))
                    # (if mode (log_fsync (cfg (srv wd))) = LOG_FSYNC_ALL
                       then [Fsync (fd (log (srv wd)))] else [])))"
proof -
  have z: "0 < msg_size_arg M body sz"
    by (simp add: msg_size_arg_in_range [OF assms] sizeof_msg_def)
  have a: "snprintf_stored (msg_size_arg M body sz) body \<le> sizeof_msg M"
    using snprintf_stored_le [of "msg_size_arg M body sz" body] msg_size_arg_le [of M body sz]
    by simp
  have b: "length (slog_msg M body sz wd) \<le> M"
    by (simp add: slog_msg_truncated [OF assms])
  have c: "length (slog_line M level body sz wd) < sizeof_line M"
    if "length (slog_time_buf wd) + 19 \<le> M"
    using that slog_line_length [OF assms, of M level wd] by (simp add: sizeof_line_def)
  have d: "trace (slog_internal M level body sz wd) =
            trace wd @
              (if fd (log (srv wd)) = 0 then []
               else Write (fd (log (srv wd))) (slog_line M level body sz wd)
                      (length (slog_line M level body sz wd))
                    # (if mode (log_fsync (cfg (srv wd))) = LOG_FSYNC_ALL
                       then [Fsync (fd (log (srv wd)))] else []))"
    if "length (slog_time_buf wd) + 19 \<le> M"
    using c [OF that]
    by (simp add: slog_internal_closed slog_internal_trace emitted_def snprintf_def)
  show ?thesis
    using z a b c d snprintf_stored_le [of "sizeof_line M"] slog_msg_truncated [OF assms, of M wd]
    by blast
qed

lemma slog_truncation_in_range_example:
  "snprintf_stored (msg_size_arg 64 (replicate 200 (CHR ''x'')) 200) (replicate 200 (CHR ''x''))
       = 65
   \<and> slog_msg 64 (replicate 200 (CHR ''x'')) 200 example_world = replicate 64 (CHR ''x'')
   \<and> trace (slog_internal 64 WEBDIS_ERROR (replicate 200 (CHR ''x'')) 200 example_world) =
       [Write 2 (''[4242] 30 Oct 19:35:00 E '' @ replicate 64 (CHR ''x'') @ [CHR 0x0A]) 90]"
  by (simp add: slog_internal_def slog_line_def slog_msg_def line_format_def
      slog_time_buf_def slog_letter_def show_int_def int32_def digits.simps
      snprintf_stored_def msg_size_arg_def size_t_def sizeof_msg_def sizeof_line_def
      snprintf_def)

section \<open>Truncation of the message (C8)\<close>


section \<open>Facts about the linear scans\<close>

lemma first_index_le: "first_index P xs \<le> length xs"
  by (simp add: first_index_def length_takeWhile_le)

lemma first_index_before: "j < first_index P xs \<Longrightarrow> \<not> P (xs ! j)"
  unfolding first_index_def using nth_length_takeWhile takeWhile_nth
  by (metis nth_mem set_takeWhileD)

lemma first_index_at: "first_index P xs < length xs \<Longrightarrow> P (xs ! first_index P xs)"
  unfolding first_index_def using nth_length_takeWhile by blast

lemma first_index_none:
  assumes "\<forall>x \<in> set xs. \<not> P x"
  shows "first_index P xs = length xs"
proof -
  have e: "takeWhile (\<lambda>x. \<not> P x) xs = xs"
    using assms by (simp add: takeWhile_eq_all_conv)
  show ?thesis
    unfolding first_index_def e by (rule refl)
qed

lemma first_index_less: "x \<in> set xs \<Longrightarrow> P x \<Longrightarrow> first_index P xs < length xs"
  by (induction xs) (auto simp add: first_index_def)

lemma first_index_absent: "v \<notin> set xs \<Longrightarrow> first_index (\<lambda>x. x = v) xs = length xs"
  by (induction xs) (auto simp add: first_index_def)

lemma first_index_eq:
  assumes "k \<le> length xs" "\<And>j. j < k \<Longrightarrow> \<not> P (xs ! j)" "k < length xs \<Longrightarrow> P (xs ! k)"
  shows "first_index P xs = k"
proof -
  have "takeWhile (\<lambda>x. \<not> P x) xs = take k xs"
    using assms by (intro takeWhile_eq_take_P_nth) auto
  with assms(1) show ?thesis
    by (simp add: first_index_def)
qed

declare pool_on_connect_loop.simps [simp del] pool_on_disconnect_loop.simps [simp del]

lemma pool_on_connect_loop_eq:
  "0 \<le> i \<Longrightarrow> length (ac p) = nat (count p) \<Longrightarrow> nat i \<le> length (ac p) \<Longrightarrow>
   (\<And>j. j < nat i \<Longrightarrow> ac p ! j \<noteq> None) \<Longrightarrow>
   pool_on_connect_loop i p a = p\<lparr>ac := (ac p)[first_index (\<lambda>x. x = None) (ac p) := Some a]\<rparr>"
proof (induction i p a rule: pool_on_connect_loop.induct)
  case (1 i p a)
  show ?case
  proof (cases "i < count p")
    case False
    with "1.prems" have "nat i = length (ac p)" by simp
    with "1.prems" have "first_index (\<lambda>x. x = None) (ac p) = length (ac p)"
      by (intro first_index_eq) auto
    with False show ?thesis
      by (subst pool_on_connect_loop.simps) (simp add: list_update_beyond)
  next
    case True
    show ?thesis
    proof (cases "ac p ! nat i = None")
      case True
      with \<open>i < count p\<close> "1.prems" have "first_index (\<lambda>x. x = None) (ac p) = nat i"
        by (intro first_index_eq) auto
      with True \<open>i < count p\<close> show ?thesis
        by (subst pool_on_connect_loop.simps) simp
    next
      case False
      have "pool_on_connect_loop (i + 1) p a =
              p\<lparr>ac := (ac p)[first_index (\<lambda>x. x = None) (ac p) := Some a]\<rparr>"
      proof (rule "1.IH" [OF \<open>i < count p\<close> False])
        show "0 \<le> i + 1" using "1.prems" by simp
        show "length (ac p) = nat (count p)" using "1.prems" by simp
        show "nat (i + 1) \<le> length (ac p)" using "1.prems" \<open>i < count p\<close> by simp
        show "ac p ! j \<noteq> None" if "j < nat (i + 1)" for j
        proof (cases "j = nat i")
          case True
          with False show ?thesis by simp
        next
          case False
          with that "1.prems"(1) have "j < nat i" by linarith
          then show ?thesis by (rule "1.prems"(4))
        qed
      qed
      with False \<open>i < count p\<close> show ?thesis
        by (subst pool_on_connect_loop.simps) (simp del: not_None_eq)
    qed
  qed
qed

lemma pool_on_disconnect_loop_eq:
  "0 \<le> i \<Longrightarrow> length (ac p) = nat (count p) \<Longrightarrow> nat i \<le> length (ac p) \<Longrightarrow>
   (\<And>j. j < nat i \<Longrightarrow> ac p ! j \<noteq> Some a) \<Longrightarrow>
   pool_on_disconnect_loop i p a = p\<lparr>ac := (ac p)[first_index (\<lambda>x. x = Some a) (ac p) := None]\<rparr>"
proof (induction i p a rule: pool_on_disconnect_loop.induct)
  case (1 i p a)
  show ?case
  proof (cases "i < count p")
    case False
    with "1.prems" have "nat i = length (ac p)" by simp
    with "1.prems" have "first_index (\<lambda>x. x = Some a) (ac p) = length (ac p)"
      by (intro first_index_eq) auto
    with False show ?thesis
      by (subst pool_on_disconnect_loop.simps) (simp add: list_update_beyond)
  next
    case True
    show ?thesis
    proof (cases "ac p ! nat i = Some a")
      case True
      with \<open>i < count p\<close> "1.prems" have "first_index (\<lambda>x. x = Some a) (ac p) = nat i"
        by (intro first_index_eq) auto
      with True \<open>i < count p\<close> show ?thesis
        by (subst pool_on_disconnect_loop.simps) simp
    next
      case False
      have "pool_on_disconnect_loop (i + 1) p a =
              p\<lparr>ac := (ac p)[first_index (\<lambda>x. x = Some a) (ac p) := None]\<rparr>"
      proof (rule "1.IH" [OF \<open>i < count p\<close> False])
        show "0 \<le> i + 1" using "1.prems" by simp
        show "length (ac p) = nat (count p)" using "1.prems" by simp
        show "nat (i + 1) \<le> length (ac p)" using "1.prems" \<open>i < count p\<close> by simp
        show "ac p ! j \<noteq> Some a" if "j < nat (i + 1)" for j
        proof (cases "j = nat i")
          case True
          with False show ?thesis by simp
        next
          case False
          with that "1.prems"(1) have "j < nat i" by linarith
          then show ?thesis by (rule "1.prems"(4))
        qed
      qed
      with False \<open>i < count p\<close> show ?thesis
        by (subst pool_on_disconnect_loop.simps) simp
    qed
  qed
qed


lemma pool_schedule_reconnect_reconnects:
  "reconnects (pool_schedule_reconnect p wd) =
     (reconnects wd)(next_alloc wd \<mapsto>
        \<lparr>pr_ev = \<lparr>ev_base = worker_base (pool_w (pools wd p)), ev_persist = False,
                   ev_callback = Pool_can_connect (next_alloc wd)\<rparr>,
         pr_p = p, pr_tv = \<lparr>tv_sec = 0, tv_usec = 100000\<rparr>\<rparr>)"
  by (simp add: pool_schedule_reconnect_def Let_def)

lemma pool_can_connect_live:
  "reconnects wd ptr = Some pr \<Longrightarrow>
   pool_can_connect ptr wd =
     wd\<lparr>reconnects := (reconnects wd)(ptr := None),
        trace := trace wd @ [Free ptr, Pool_connect (pr_p pr) (database (pool_cfg (pools wd (pr_p pr)))) 1]\<rparr>"
  by (simp add: pool_can_connect_def Let_def)

lemma redis_status_distinct [simp]: "REDIS_OK \<noteq> REDIS_ERR" "REDIS_ERR \<noteq> REDIS_OK"
  by (simp_all add: REDIS_OK_def REDIS_ERR_def)

section \<open>The Reconnect Task (C6)\<close>

text \<open>
  C6. \<open>pool_schedule_reconnect p\<close> adds one timer and nothing else to the pending
  timers: it is bound to the event base of the pool's worker, it carries no
  \<^verbatim>\<open>EV_PERSIST\<close> (one shot), its delay is 0 seconds and 100000 microseconds, that is
  100 milliseconds, and its callback is \<open>pool_can_connect\<close> on the task just allocated,
  which records the pool. The call itself makes no connect request. When the timer
  expires, the task is first freed and then \<^verbatim>\<open>pool_connect\<close> is called once, for the
  recorded pool, with the database of the pool's configuration and the flag 1; the
  timer is no longer pending afterwards. The last part states the same for the
  callback run in any later world in which the task is still allocated.
\<close>

theorem reconnect_task:
  "timers (pool_schedule_reconnect p wd) =
     timers wd @
       [(\<lparr>ev_base = worker_base (pool_w (pools wd p)), ev_persist = False,
          ev_callback = Pool_can_connect (next_alloc wd)\<rparr>,
         \<lparr>tv_sec = 0, tv_usec = 100000\<rparr>)]
   \<and> tv_sec (snd (last (timers (pool_schedule_reconnect p wd)))) * 1000000
       + tv_usec (snd (last (timers (pool_schedule_reconnect p wd)))) = 100 * 1000
   \<and> reconnects (pool_schedule_reconnect p wd) (next_alloc wd) =
       Some \<lparr>pr_ev = \<lparr>ev_base = worker_base (pool_w (pools wd p)), ev_persist = False,
                       ev_callback = Pool_can_connect (next_alloc wd)\<rparr>,
             pr_p = p, pr_tv = \<lparr>tv_sec = 0, tv_usec = 100000\<rparr>\<rparr>
   \<and> trace (pool_schedule_reconnect p wd) = trace wd
   \<and> fire (length (timers wd)) (pool_schedule_reconnect p wd) =
       (pool_schedule_reconnect p wd)
         \<lparr>timers := timers wd,
          reconnects := (reconnects (pool_schedule_reconnect p wd))(next_alloc wd := None),
          trace := trace wd @ [Free (next_alloc wd), Pool_connect p (database (pool_cfg (pools wd p))) 1]\<rparr>
   \<and> (reconnects wd' ptr = Some pr \<longrightarrow>
        pool_can_connect ptr wd' =
          wd'\<lparr>reconnects := (reconnects wd')(ptr := None),
              trace := trace wd' @
                [Free ptr, Pool_connect (pr_p pr) (database (pool_cfg (pools wd' (pr_p pr)))) 1]\<rparr>)"
proof -
  have f: "fire (length (timers wd)) (pool_schedule_reconnect p wd) =
       (pool_schedule_reconnect p wd)
         \<lparr>timers := timers wd,
          reconnects := (reconnects (pool_schedule_reconnect p wd))(next_alloc wd := None),
          trace := trace wd @ [Free (next_alloc wd), Pool_connect p (database (pool_cfg (pools wd p))) 1]\<rparr>"
    by (simp add: fire_def pool_schedule_reconnect_timers run_callback_def
        pool_can_connect_def pool_schedule_reconnect_reconnects Let_def)
  show ?thesis
    using f by (simp add: pool_schedule_reconnect_timers pool_schedule_reconnect_reconnects
        pool_can_connect_live)
qed

theorem reconnect_task_witness:
  "timers (pool_schedule_reconnect 9 example_world) =
     [(\<lparr>ev_base = 7, ev_persist = False, ev_callback = Pool_can_connect 100\<rparr>,
       \<lparr>tv_sec = 0, tv_usec = 100000\<rparr>)]
   \<and> trace (fire 0 (pool_schedule_reconnect 9 example_world)) = [Free 100, Pool_connect 9 3 1]
   \<and> timers (fire 0 (pool_schedule_reconnect 9 example_world)) = []
   \<and> reconnects (fire 0 (pool_schedule_reconnect 9 example_world)) 100 = None
   \<and> reconnects (pool_schedule_reconnect 9 example_world) 100 =
       Some \<lparr>pr_ev = \<lparr>ev_base = 7, ev_persist = False, ev_callback = Pool_can_connect 100\<rparr>,
             pr_p = 9, pr_tv = \<lparr>tv_sec = 0, tv_usec = 100000\<rparr>\<rparr>
   \<and> trace (pool_can_connect 100 (pool_schedule_reconnect 9 example_world)) =
       [Free 100, Pool_connect 9 3 1]"
proof -
  have r: "reconnects (pool_schedule_reconnect 9 example_world) 100 =
       Some \<lparr>pr_ev = \<lparr>ev_base = 7, ev_persist = False, ev_callback = Pool_can_connect 100\<rparr>,
             pr_p = 9, pr_tv = \<lparr>tv_sec = 0, tv_usec = 100000\<rparr>\<rparr>"
    by (simp add: pool_schedule_reconnect_reconnects)
  show ?thesis
    using r reconnect_task [of 9 example_world "pool_schedule_reconnect 9 example_world" 100
        "\<lparr>pr_ev = \<lparr>ev_base = 7, ev_persist = False, ev_callback = Pool_can_connect 100\<rparr>,
             pr_p = 9, pr_tv = \<lparr>tv_sec = 0, tv_usec = 100000\<rparr>\<rparr>"]
    by (simp add: example_cfg_def)
qed


section \<open>The connect callback (C4)\<close>

text \<open>
  C4. For a handle with a pool attached, whose slot array has \<open>count\<close> entries: when
  the status is \<^verbatim>\<open>REDIS_ERR\<close> or the handle's \<^verbatim>\<open>err\<close> is set, no pool changes and
  one Reconnect Task is added to the pending timers. Otherwise the only change to the
  world is that the handle's address is stored at the first index of the pool's slot
  array that holds \<^verbatim>\<open>NULL\<close>: every slot before that index is occupied and that slot
  is empty; and when no slot is empty the world, the slot array included, is left
  exactly as it was.
\<close>

theorem pool_on_connect_slots:
  assumes "data c = Some p" and "length (ac (pools wd p)) = nat (count (pools wd p))"
  shows "(status = REDIS_ERR \<or> err c \<noteq> 0 \<longrightarrow>
            pools (pool_on_connect c status wd) = pools wd
            \<and> timers (pool_on_connect c status wd) =
                timers wd @
                  [(\<lparr>ev_base = worker_base (pool_w (pools wd p)), ev_persist = False,
                     ev_callback = Pool_can_connect (next_alloc wd)\<rparr>,
                    \<lparr>tv_sec = 0, tv_usec = 100000\<rparr>)])
       \<and> (status \<noteq> REDIS_ERR \<and> err c = 0 \<longrightarrow>
            pool_on_connect c status wd =
              wd\<lparr>pools := (pools wd)
                   (p := (pools wd p)
                      \<lparr>ac := (ac (pools wd p))
                         [first_index (\<lambda>x. x = None) (ac (pools wd p)) := Some (ctx_addr c)]\<rparr>)\<rparr>
            \<and> (\<forall>j < first_index (\<lambda>x. x = None) (ac (pools wd p)). ac (pools wd p) ! j \<noteq> None)
            \<and> (first_index (\<lambda>x. x = None) (ac (pools wd p)) < length (ac (pools wd p)) \<longrightarrow>
                 ac (pools wd p) ! first_index (\<lambda>x. x = None) (ac (pools wd p)) = None)
            \<and> (None \<notin> set (ac (pools wd p)) \<longrightarrow> pool_on_connect c status wd = wd))"
proof (intro conjI impI allI)
  assume "status = REDIS_ERR \<or> err c \<noteq> 0"
  with assms show "pools (pool_on_connect c status wd) = pools wd"
    and "timers (pool_on_connect c status wd) =
                timers wd @
                  [(\<lparr>ev_base = worker_base (pool_w (pools wd p)), ev_persist = False,
                     ev_callback = Pool_can_connect (next_alloc wd)\<rparr>,
                    \<lparr>tv_sec = 0, tv_usec = 100000\<rparr>)]"
    by (auto simp add: pool_on_connect_def pool_schedule_reconnect_timers)
next
  assume ok: "status \<noteq> REDIS_ERR \<and> err c = 0"
  have l: "pool_on_connect_loop 0 (pools wd p) (ctx_addr c) =
             (pools wd p)\<lparr>ac := (ac (pools wd p))
                [first_index (\<lambda>x. x = None) (ac (pools wd p)) := Some (ctx_addr c)]\<rparr>"
    using assms(2) by (intro pool_on_connect_loop_eq) simp_all
  with assms ok show e: "pool_on_connect c status wd =
              wd\<lparr>pools := (pools wd)
                   (p := (pools wd p)
                      \<lparr>ac := (ac (pools wd p))
                         [first_index (\<lambda>x. x = None) (ac (pools wd p)) := Some (ctx_addr c)]\<rparr>)\<rparr>"
    by (simp add: pool_on_connect_def)
  show "pool_on_connect c status wd = wd" if "None \<notin> set (ac (pools wd p))"
  proof -
    from that have "first_index (\<lambda>x. x = None) (ac (pools wd p)) = length (ac (pools wd p))"
      by (rule first_index_absent)
    then show ?thesis
      unfolding e by (simp add: list_update_beyond)
  qed
next
  fix j
  assume "j < first_index (\<lambda>x. x = None) (ac (pools wd p))"
  then show "ac (pools wd p) ! j \<noteq> None"
    using first_index_before [of j "\<lambda>x. x = None" "ac (pools wd p)"] by simp
next
  assume "first_index (\<lambda>x. x = None) (ac (pools wd p)) < length (ac (pools wd p))"
  then show "ac (pools wd p) ! first_index (\<lambda>x. x = None) (ac (pools wd p)) = None"
    by (rule first_index_at)
qed

theorem pool_on_connect_slots_witness:
  "data (example_ctx 5) = Some 9
   \<and> length (ac (pools example_world 9)) = nat (count (pools example_world 9))
   \<and> pools (pool_on_connect (example_ctx 5) REDIS_ERR example_world) = pools example_world
   \<and> timers (pool_on_connect (example_ctx 5) REDIS_ERR example_world) =
       [(\<lparr>ev_base = 7, ev_persist = False, ev_callback = Pool_can_connect 100\<rparr>,
         \<lparr>tv_sec = 0, tv_usec = 100000\<rparr>)]
   \<and> ac (pools (pool_on_connect (example_ctx 5) REDIS_OK example_world) 9) = [Some 5, None]
   \<and> ac (pools (pool_on_connect (example_ctx 6) REDIS_OK
                  (pool_on_connect (example_ctx 5) REDIS_OK example_world)) 9) = [Some 5, Some 6]
   \<and> pool_on_connect (example_ctx 7) REDIS_OK
       (pool_on_connect (example_ctx 6) REDIS_OK
          (pool_on_connect (example_ctx 5) REDIS_OK example_world)) =
       pool_on_connect (example_ctx 6) REDIS_OK
          (pool_on_connect (example_ctx 5) REDIS_OK example_world)"
proof -
  let ?w1 = "pool_on_connect (example_ctx 5) REDIS_OK example_world"
  let ?w2 = "pool_on_connect (example_ctx 6) REDIS_OK ?w1"
  have d: "data (example_ctx a) = Some 9" for a
    by simp
  have l0: "length (ac (pools example_world 9)) = nat (count (pools example_world 9))"
    by simp
  have a: "pools (pool_on_connect (example_ctx 5) REDIS_ERR example_world) = pools example_world
     \<and> timers (pool_on_connect (example_ctx 5) REDIS_ERR example_world) =
       [(\<lparr>ev_base = 7, ev_persist = False, ev_callback = Pool_can_connect 100\<rparr>,
         \<lparr>tv_sec = 0, tv_usec = 100000\<rparr>)]"
    using pool_on_connect_slots [where status = REDIS_ERR, OF d l0, of 5] by simp
  have p1: "pools ?w1 9 =
      \<lparr>count = 2, ac = [Some 5, None], pool_w = \<lparr>worker_base = 7\<rparr>, pool_cfg = example_cfg\<rparr>"
    using pool_on_connect_slots [where status = REDIS_OK, OF d l0, of 5] by (simp add: first_index_def)
  then have l1: "length (ac (pools ?w1 9)) = nat (count (pools ?w1 9))"
    by simp
  have p2: "pools ?w2 9 =
      \<lparr>count = 2, ac = [Some 5, Some 6], pool_w = \<lparr>worker_base = 7\<rparr>, pool_cfg = example_cfg\<rparr>"
    using pool_on_connect_slots [where status = REDIS_OK, OF d l1, of 6] by (simp add: p1 first_index_def)
  then have l2: "length (ac (pools ?w2 9)) = nat (count (pools ?w2 9))"
    by simp
  have n2: "None \<notin> set (ac (pools ?w2 9))"
    by (simp add: p2)
  have ok: "REDIS_OK \<noteq> REDIS_ERR \<and> err (example_ctx 7) = 0"
    by simp
  have p3: "pool_on_connect (example_ctx 7) REDIS_OK ?w2 = ?w2"
    using pool_on_connect_slots [where status = REDIS_OK, OF d l2, of 7] n2 ok by blast
  show ?thesis
    using a p1 p2 p3 by simp
qed

section \<open>Facts about the messages\<close>

lemma expand_error_disconnecting:
  "expand (CHR ''s'') ''Error disconnecting: %s'' e = ''Error disconnecting: '' @ e"
  by simp

lemma expand_auth_failed:
  "expand (CHR ''s'') ''Authentication failed: %s'' e = ''Authentication failed: '' @ e"
  by simp

lemma expand_auth_succeeded:
  "expand (CHR ''s'') ''Authentication succeeded: %s'' e = ''Authentication succeeded: '' @ e"
  by simp

lemma writes_slog:
  "fd (log (srv wd)) \<noteq> 0 \<Longrightarrow>
   writes (slog M level body sz wd) =
     writes wd + (if level_num level \<le> level_num (verbosity (cfg (srv wd))) then 1 else 0)"
  by (simp add: slog_def writes_def slog_internal_trace writes_emitted)

section \<open>The disconnect callback (C5)\<close>

text \<open>
  C5, as amended. For a handle with a pool attached, whose slot array has \<open>count\<close> entries: the
  first slot that holds the handle's address, found by comparing addresses, is set to
  \<^verbatim>\<open>NULL\<close> and no other slot of any pool changes (nothing changes when no slot
  holds it). A line is written at the error level, that is, \<open>slog\<close> is called once
  at \<^verbatim>\<open>WEBDIS_ERROR\<close> with \<^verbatim>\<open>"Error disconnecting: "\<close> followed by the handle's error
  string, or by \<^verbatim>\<open>"(null)"\<close> when it has none, if and only if the status is not
  \<^verbatim>\<open>REDIS_OK\<close> and \<^verbatim>\<open>calloc\<close> returns the buffer for the message; otherwise nothing is
  logged. On an opened sink that is one \<^verbatim>\<open>write\<close> under exactly this condition, the
  error level being enabled at every verbosity. In every case one Reconnect Task is
  added to the pending timers, whether or not the handle was found in a slot.
\<close>

theorem pool_on_disconnect_effects:
  assumes "data c = Some p" and "length (ac (pools wd p)) = nat (count (pools wd p))"
  shows "pools (pool_on_disconnect M c status wd) =
           (pools wd)
             (p := (pools wd p)
                \<lparr>ac := (ac (pools wd p))
                   [first_index (\<lambda>x. x = Some (ctx_addr c)) (ac (pools wd p)) := None]\<rparr>)
       \<and> (Some (ctx_addr c) \<in> set (ac (pools wd p)) \<longrightarrow>
            first_index (\<lambda>x. x = Some (ctx_addr c)) (ac (pools wd p)) < length (ac (pools wd p))
            \<and> ac (pools wd p) ! first_index (\<lambda>x. x = Some (ctx_addr c)) (ac (pools wd p))
                = Some (ctx_addr c))
       \<and> (Some (ctx_addr c) \<notin> set (ac (pools wd p)) \<longrightarrow>
            pools (pool_on_disconnect M c status wd) = pools wd)
       \<and> trace (pool_on_disconnect M c status wd) =
           trace (if status \<noteq> REDIS_OK \<and> calloc_ok wd
                  then slog M WEBDIS_ERROR
                         (''Error disconnecting: ''
                            @ (case errstr c of Some e \<Rightarrow> e | None \<Rightarrow> ''(null)''))
                         (21 + length (case errstr c of Some e \<Rightarrow> e | None \<Rightarrow> ''(null)'')) wd
                  else wd)
       \<and> (fd (log (srv wd)) \<noteq> 0 \<longrightarrow>
            writes (pool_on_disconnect M c status wd) =
              writes wd + (if status \<noteq> REDIS_OK \<and> calloc_ok wd then 1 else 0))
       \<and> timers (pool_on_disconnect M c status wd) =
           timers wd @
             [(\<lparr>ev_base = worker_base (pool_w (pools wd p)), ev_persist = False,
                ev_callback = Pool_can_connect (next_alloc wd)\<rparr>,
               \<lparr>tv_sec = 0, tv_usec = 100000\<rparr>)]"
proof -
  let ?k = "first_index (\<lambda>x. x = Some (ctx_addr c)) (ac (pools wd p))"
  let ?txt = "case errstr c of Some e \<Rightarrow> e | None \<Rightarrow> ''(null)''"
  let ?logged = "if status \<noteq> REDIS_OK \<and> calloc_ok wd
                  then slog M WEBDIS_ERROR (''Error disconnecting: '' @ ?txt) (21 + length ?txt) wd
                  else wd"
  have l: "pool_on_disconnect_loop 0 (pools wd p) (ctx_addr c) =
             (pools wd p)\<lparr>ac := (ac (pools wd p))[?k := None]\<rparr>"
    using assms(2) by (intro pool_on_disconnect_loop_eq) simp_all
  have m: "fst (snprintf (length ''Error disconnecting: %s'' + 1 - 2
                    + (case errstr c of Some e \<Rightarrow> length e | None \<Rightarrow> 6) + 1)
              (expand (CHR ''s'') ''Error disconnecting: %s'' ?txt)) = ''Error disconnecting: '' @ ?txt"
    unfolding expand_error_disconnecting by (simp add: snprintf_def split: option.splits)
  have s: "length ''Error disconnecting: %s'' + 1 - 2
             + (case errstr c of Some e \<Rightarrow> length e | None \<Rightarrow> 6) - 1 = 21 + length ?txt"
    by (simp split: option.splits)
  have d: "pool_on_disconnect M c status wd =
             pool_schedule_reconnect p
               (?logged\<lparr>pools := (pools wd)(p := (pools wd p)\<lparr>ac := (ac (pools wd p))[?k := None]\<rparr>)\<rparr>)"
    unfolding pool_on_disconnect_def Let_def m s using assms(1) l by simp
  have p1: "pools (pool_on_disconnect M c status wd) =
           (pools wd)(p := (pools wd p)\<lparr>ac := (ac (pools wd p))[?k := None]\<rparr>)"
    unfolding d by simp
  have p2: "?k < length (ac (pools wd p)) \<and> ac (pools wd p) ! ?k = Some (ctx_addr c)"
    if "Some (ctx_addr c) \<in> set (ac (pools wd p))"
  proof -
    have "?k < length (ac (pools wd p))"
      using that by (rule first_index_less) simp
    then show ?thesis
      using first_index_at [of "\<lambda>x. x = Some (ctx_addr c)" "ac (pools wd p)"] by simp
  qed
  have p3: "pools (pool_on_disconnect M c status wd) = pools wd"
    if "Some (ctx_addr c) \<notin> set (ac (pools wd p))"
  proof -
    from that have "?k = length (ac (pools wd p))"
      by (rule first_index_absent)
    then show ?thesis
      unfolding p1 by (simp add: list_update_beyond)
  qed
  have p4: "trace (pool_on_disconnect M c status wd) = trace ?logged"
    unfolding d by simp
  have p5: "writes (pool_on_disconnect M c status wd) =
              writes wd + (if status \<noteq> REDIS_OK \<and> calloc_ok wd then 1 else 0)"
    if "fd (log (srv wd)) \<noteq> 0"
    using that p4 writes_slog [OF that, of M WEBDIS_ERROR] by (simp add: writes_def)
  have p6: "timers (pool_on_disconnect M c status wd) =
           timers wd @
             [(\<lparr>ev_base = worker_base (pool_w (pools wd p)), ev_persist = False,
                ev_callback = Pool_can_connect (next_alloc wd)\<rparr>,
               \<lparr>tv_sec = 0, tv_usec = 100000\<rparr>)]"
    unfolding d by (simp add: pool_schedule_reconnect_timers)
  show ?thesis
    using p1 p2 p3 p4 p5 p6 by blast
qed

theorem pool_on_disconnect_effects_witness:
  "ac (pools (pool_on_disconnect 124 (example_ctx 5) REDIS_ERR
         (pool_on_connect (example_ctx 5) REDIS_OK example_world)) 9) = [None, None]
   \<and> trace (pool_on_disconnect 124 (example_ctx 5) REDIS_ERR
         (pool_on_connect (example_ctx 5) REDIS_OK example_world)) =
       [Write 2 (''[4242] 30 Oct 19:35:00 E Error disconnecting: Connection reset by peer''
                   @ [CHR 0x0A]) 71]
   \<and> timers (pool_on_disconnect 124 (example_ctx 5) REDIS_ERR
         (pool_on_connect (example_ctx 5) REDIS_OK example_world)) =
       [(\<lparr>ev_base = 7, ev_persist = False, ev_callback = Pool_can_connect 100\<rparr>,
         \<lparr>tv_sec = 0, tv_usec = 100000\<rparr>)]
   \<and> pools (pool_on_disconnect 124 (example_ctx 6) REDIS_OK example_world) = pools example_world
   \<and> trace (pool_on_disconnect 124 (example_ctx 6) REDIS_OK example_world) = []
   \<and> writes (pool_on_disconnect 124 (example_ctx 6) REDIS_OK example_world) = 0
   \<and> timers (pool_on_disconnect 124 (example_ctx 6) REDIS_OK example_world) =
       [(\<lparr>ev_base = 7, ev_persist = False, ev_callback = Pool_can_connect 100\<rparr>,
         \<lparr>tv_sec = 0, tv_usec = 100000\<rparr>)]"
proof -
  let ?w1 = "pool_on_connect (example_ctx 5) REDIS_OK example_world"
  have d: "data (example_ctx a) = Some 9" for a
    by simp
  have l0: "length (ac (pools example_world 9)) = nat (count (pools example_world 9))"
    by simp
  have w1: "?w1 = example_world\<lparr>pools := (pools example_world)
      (9 := \<lparr>count = 2, ac = [Some 5, None], pool_w = \<lparr>worker_base = 7\<rparr>,
              pool_cfg = example_cfg\<rparr>)\<rparr>"
    by (simp add: pool_on_connect_def pool_on_connect_loop.simps [of 0] REDIS_OK_def REDIS_ERR_def)
  have l1: "length (ac (pools ?w1 9)) = nat (count (pools ?w1 9))"
    by (simp add: w1)
  have line: "slog_line 124 WEBDIS_ERROR (''Error disconnecting: '' @ ''Connection reset by peer'')
                (21 + length ''Connection reset by peer'') ?w1 =
              ''[4242] 30 Oct 19:35:00 E Error disconnecting: Connection reset by peer'' @ [CHR 0x0A]"
    by (simp add: w1 slog_line_def line_format_def slog_time_buf_def slog_letter_def
        slog_msg_def msg_size_arg_def size_t_def sizeof_msg_def snprintf_def show_int_def
        int32_def digits.simps)
  note T = pool_on_disconnect_effects [where status = REDIS_ERR and M = 124, OF d l1, of 5]
  have a1: "ac (pools (pool_on_disconnect 124 (example_ctx 5) REDIS_ERR ?w1) 9) = [None, None]"
    unfolding T [THEN conjunct1] by (simp add: w1 first_index_def)
  have a2: "trace (pool_on_disconnect 124 (example_ctx 5) REDIS_ERR ?w1) =
       [Write 2 (''[4242] 30 Oct 19:35:00 E Error disconnecting: Connection reset by peer''
                   @ [CHR 0x0A]) 71]"
    unfolding T [THEN conjunct2, THEN conjunct2, THEN conjunct2, THEN conjunct1]
    using line
    by (simp add: w1 slog_def slog_internal_trace emitted_def snprintf_def sizeof_line_def)
  have a3: "timers (pool_on_disconnect 124 (example_ctx 5) REDIS_ERR ?w1) =
       [(\<lparr>ev_base = 7, ev_persist = False, ev_callback = Pool_can_connect 100\<rparr>,
         \<lparr>tv_sec = 0, tv_usec = 100000\<rparr>)]"
    unfolding T [THEN conjunct2, THEN conjunct2, THEN conjunct2, THEN conjunct2, THEN conjunct2]
    by (simp add: w1)
  note a = a1 a2 a3
  note U = pool_on_disconnect_effects [where status = REDIS_OK and M = 124, OF d l0, of 6]
  have n6: "Some (ctx_addr (example_ctx 6)) \<notin> set (ac (pools example_world 9))"
    by simp
  have b1: "pools (pool_on_disconnect 124 (example_ctx 6) REDIS_OK example_world) =
              pools example_world"
    using U n6 by blast
  have b2: "trace (pool_on_disconnect 124 (example_ctx 6) REDIS_OK example_world) = []"
    unfolding U [THEN conjunct2, THEN conjunct2, THEN conjunct2, THEN conjunct1] by simp
  have b3: "writes (pool_on_disconnect 124 (example_ctx 6) REDIS_OK example_world) = 0"
    using b2 by (simp add: writes_def)
  have b4: "timers (pool_on_disconnect 124 (example_ctx 6) REDIS_OK example_world) =
       [(\<lparr>ev_base = 7, ev_persist = False, ev_callback = Pool_can_connect 100\<rparr>,
         \<lparr>tv_sec = 0, tv_usec = 100000\<rparr>)]"
    unfolding U [THEN conjunct2, THEN conjunct2, THEN conjunct2, THEN conjunct2, THEN conjunct2]
    by simp
  note b = b1 b2 b3 b4
  show ?thesis
    using a b by simp
qed

text \<open>
  An unclean disconnect while \<^verbatim>\<open>calloc\<close> returns \<^verbatim>\<open>NULL\<close>: the sink is opened and the
  status is \<^verbatim>\<open>REDIS_ERR\<close>, and no line is written. The Reconnect Task is scheduled
  all the same.
\<close>

theorem pool_on_disconnect_no_memory:
  "data (example_ctx 5) = Some 9
   \<and> REDIS_ERR \<noteq> REDIS_OK
   \<and> fd (log (srv example_world_no_memory)) = 2
   \<and> trace (pool_on_disconnect 124 (example_ctx 5) REDIS_ERR example_world_no_memory) = []
   \<and> writes (pool_on_disconnect 124 (example_ctx 5) REDIS_ERR example_world_no_memory) = 0
   \<and> timers (pool_on_disconnect 124 (example_ctx 5) REDIS_ERR example_world_no_memory) =
       [(\<lparr>ev_base = 7, ev_persist = False, ev_callback = Pool_can_connect 100\<rparr>,
         \<lparr>tv_sec = 0, tv_usec = 100000\<rparr>)]"
  by (simp add: example_world_no_memory_def example_world_def example_cfg_def
      pool_on_disconnect_def pool_on_disconnect_loop.simps pool_schedule_reconnect_def
      Let_def writes_def REDIS_ERR_def REDIS_OK_def)

section \<open>Facts about the slots\<close>

lemma slots_exclusive_nth:
  "slots_exclusive slots \<longleftrightarrow>
     (\<forall>i < length slots. \<forall>j < length slots. \<forall>h.
        slots ! i = Some h \<and> slots ! j = Some h \<longrightarrow> i = j)"
proof (induction slots)
  case Nil
  then show ?case by (simp add: slots_exclusive_def)
next
  case (Cons x xs)
  let ?L = "\<forall>i < length (x # xs). \<forall>j < length (x # xs). \<forall>h.
              (x # xs) ! i = Some h \<and> (x # xs) ! j = Some h \<longrightarrow> i = j"
  let ?R = "\<forall>i < length xs. \<forall>j < length xs. \<forall>h. xs ! i = Some h \<and> xs ! j = Some h \<longrightarrow> i = j"
  have tail: ?R if l: ?L
  proof (intro allI impI)
    fix i j h assume "i < length xs" "j < length xs" "xs ! i = Some h \<and> xs ! j = Some h"
    with l [rule_format, of "Suc i" "Suc j" h] show "i = j" by simp
  qed
  show ?case
  proof (cases x)
    case None
    have "?L \<longleftrightarrow> ?R"
    proof
      assume ?L then show ?R by (rule tail)
    next
      assume r: ?R
      show ?L
      proof (intro allI impI)
        fix i j h assume a: "i < length (x # xs)" "j < length (x # xs)"
          "(x # xs) ! i = Some h \<and> (x # xs) ! j = Some h"
        with None obtain i' where i: "i = Suc i'" by (cases i) auto
        with a None obtain j' where j: "j = Suc j'" by (cases j) auto
        from a i j r [rule_format, of i' j' h] show "i = j" by simp
      qed
    qed
    with Cons.IH None show ?thesis
      by (simp add: slots_exclusive_def)
  next
    case (Some a)
    have "?L \<longleftrightarrow> Some a \<notin> set xs \<and> ?R"
    proof
      assume l: ?L
      have "Some a \<notin> set xs"
      proof
        assume "Some a \<in> set xs"
        then obtain k where "k < length xs" "xs ! k = Some a"
          by (auto simp add: in_set_conv_nth)
        with l [rule_format, of 0 "Suc k" a] Some show False by simp
      qed
      with tail [OF l] show "Some a \<notin> set xs \<and> ?R" by simp
    next
      assume nr: "Some a \<notin> set xs \<and> ?R"
      show ?L
      proof (intro allI impI)
        fix i j h assume a: "i < length (x # xs)" "j < length (x # xs)"
          "(x # xs) ! i = Some h \<and> (x # xs) ! j = Some h"
        show "i = j"
        proof (cases i)
          case 0
          show ?thesis
          proof (cases j)
            case (Suc j')
            with 0 a Some have "xs ! j' = Some a" "j' < length xs" by simp_all
            then have "Some a \<in> set xs" by (metis nth_mem)
            with nr show ?thesis by simp
          qed (simp add: 0)
        next
          case (Suc i')
          show ?thesis
          proof (cases j)
            case 0
            with Suc a Some have "xs ! i' = Some a" "i' < length xs" by simp_all
            then have "Some a \<in> set xs" by (metis nth_mem)
            with nr show ?thesis by simp
          next
            case (Suc j')
            with \<open>i = Suc i'\<close> a nr [THEN conjunct2, rule_format, of i' j' h] show ?thesis by simp
          qed
        qed
      qed
    qed
    with Cons.IH Some show ?thesis
      by (simp add: slots_exclusive_def)
  qed
qed

lemma slots_exclusive_clear: "slots_exclusive xs \<Longrightarrow> slots_exclusive (xs[k := None])"
  unfolding slots_exclusive_def
proof (induction xs arbitrary: k)
  case Nil
  then show ?case by simp
next
  case (Cons x xs)
  show ?case
  proof (cases k)
    case 0
    with Cons.prems show ?thesis by (auto split: if_splits)
  next
    case (Suc k')
    have "set (xs[k' := None]) \<subseteq> insert None (set xs)"
      by (rule set_update_subset_insert)
    with Cons Suc show ?thesis
      by (auto split: if_splits)
  qed
qed

lemma slots_exclusive_store:
  "slots_exclusive xs \<Longrightarrow> Some a \<notin> set xs \<Longrightarrow> slots_exclusive (xs[k := Some a])"
  unfolding slots_exclusive_def
proof (induction xs arbitrary: k)
  case Nil
  then show ?case by simp
next
  case (Cons x xs)
  show ?case
  proof (cases k)
    case 0
    with Cons.prems show ?thesis by (auto split: if_splits)
  next
    case (Suc k')
    have "set (xs[k' := Some a]) \<subseteq> insert (Some a) (set xs)"
      by (rule set_update_subset_insert)
    with Cons Suc show ?thesis
      by (auto split: if_splits)
  qed
qed


lemma pools_fire [simp]: "pools (fire i wd) = pools wd"
  by (simp add: fire_def run_callback_def slog_fsync_tick_def pool_can_connect_def Let_def
      split: callback.splits option.splits)

lemma pools_pool_on_auth_complete [simp]:
  "pools (pool_on_auth_complete M c r pdata wd) = pools wd"
  by (simp add: pool_on_auth_complete_def pool_log_auth_def Let_def split: option.splits)

lemma pools_pool_on_disconnect:
  "data c = Some p \<Longrightarrow>
   pools (pool_on_disconnect M c status wd) =
     (pools wd)(p := pool_on_disconnect_loop 0 (pools wd p) (ctx_addr c))"
  by (simp add: pool_on_disconnect_def Let_def)

lemma pools_pool_on_connect:
  "data c = Some p \<Longrightarrow>
   pools (pool_on_connect c status wd) =
     (if status = REDIS_ERR \<or> err c \<noteq> 0 then pools wd
      else (pools wd)(p := pool_on_connect_loop 0 (pools wd p) (ctx_addr c)))"
  by (simp add: pool_on_connect_def)

lemma pool_ok_connect_loop:
  assumes "pool_ok p" and "Some a \<notin> set (ac p)"
  shows "pool_ok (pool_on_connect_loop 0 p a)"
proof -
  from assms(1) have "length (ac p) = nat (count p)"
    by (simp add: pool_ok_def)
  then have "pool_on_connect_loop 0 p a =
               p\<lparr>ac := (ac p)[first_index (\<lambda>x. x = None) (ac p) := Some a]\<rparr>"
    by (intro pool_on_connect_loop_eq) simp_all
  with assms show ?thesis
    by (simp add: pool_ok_def slots_exclusive_store)
qed

lemma pool_ok_disconnect_loop:
  assumes "pool_ok p"
  shows "pool_ok (pool_on_disconnect_loop 0 p a)"
proof -
  from assms have "length (ac p) = nat (count p)"
    by (simp add: pool_ok_def)
  then have "pool_on_disconnect_loop 0 p a =
               p\<lparr>ac := (ac p)[first_index (\<lambda>x. x = Some a) (ac p) := None]\<rparr>"
    by (intro pool_on_disconnect_loop_eq) simp_all
  with assms show ?thesis
    by (simp add: pool_ok_def slots_exclusive_clear)
qed

lemma pool_ok_new: "pool_ok (pools (snd (pool_new w n wd)) (fst (pool_new w n wd)))"
  by (simp add: pool_new_def pool_ok_def slots_exclusive_def Let_def)

lemma slots_exclusive_cleared:
  "slots_exclusive xs \<Longrightarrow> Some a \<notin> set (xs[first_index (\<lambda>x. x = Some a) xs := None])"
proof (induction xs)
  case Nil
  then show ?case by simp
next
  case (Cons x xs)
  show ?case
  proof (cases "x = Some a")
    case True
    with Cons.prems show ?thesis
      by (simp add: first_index_def slots_exclusive_def)
  next
    case False
    from Cons.prems have "slots_exclusive xs"
      by (simp add: slots_exclusive_def split: if_splits)
    with Cons.IH False show ?thesis
      by (simp add: first_index_def)
  qed
qed

lemma held_live_iff:
  "held_live live q p \<longleftrightarrow> (\<forall>h. Some h \<in> set (ac p) \<longrightarrow> live h = Some (Some q))"
  unfolding held_live_def by (auto split: option.splits)

lemma held_live_other:
  assumes "held_live live q p" and "Some a \<notin> set (ac p)"
  shows "held_live (live(a := v)) q p"
  using assms unfolding held_live_iff by auto

lemma held_live_connect_loop:
  assumes "pool_ok p" and "held_live live q p" and "Some a \<notin> set (ac p)"
  shows "held_live (live(a \<mapsto> Some q)) q (pool_on_connect_loop 0 p a)"
proof -
  from assms(1) have "length (ac p) = nat (count p)"
    by (simp add: pool_ok_def)
  then have e: "pool_on_connect_loop 0 p a =
               p\<lparr>ac := (ac p)[first_index (\<lambda>x. x = None) (ac p) := Some a]\<rparr>"
    by (intro pool_on_connect_loop_eq) simp_all
  have "set ((ac p)[first_index (\<lambda>x. x = None) (ac p) := Some a]) \<subseteq> insert (Some a) (set (ac p))"
    by (rule set_update_subset_insert)
  with assms(2,3) show ?thesis
    unfolding e held_live_iff by auto
qed

lemma held_live_disconnect_loop:
  assumes "pool_ok p" and "held_live live q p"
  shows "held_live (live(a := None)) q (pool_on_disconnect_loop 0 p a)"
proof -
  let ?k = "first_index (\<lambda>x. x = Some a) (ac p)"
  from assms(1) have "length (ac p) = nat (count p)"
    by (simp add: pool_ok_def)
  then have e: "pool_on_disconnect_loop 0 p a = p\<lparr>ac := (ac p)[?k := None]\<rparr>"
    by (intro pool_on_disconnect_loop_eq) simp_all
  from assms(1) have n: "Some a \<notin> set ((ac p)[?k := None])"
    by (intro slots_exclusive_cleared) (simp add: pool_ok_def)
  have "set ((ac p)[?k := None]) \<subseteq> insert None (set (ac p))"
    by (rule set_update_subset_insert)
  with assms(2) n show ?thesis
    unfolding e held_live_iff by auto
qed

lemma pool_inv_step:
  assumes ok: "pool_ok (pools wd q)" and held: "held_live live q (pools wd q)"
    and life: "lifecycle live (e # es)"
  shows "\<exists>live'. pool_ok (pools (step M e wd) q)
                \<and> held_live live' q (pools (step M e wd) q) \<and> lifecycle live' es"
proof (cases e)
  case (Connect c status)
  show ?thesis
  proof (cases "status = REDIS_ERR \<or> err c \<noteq> 0")
    case True
    with Connect ok held have "pools (step M e wd) = pools wd"
      by (cases "data c") (simp_all add: pools_pool_on_connect pool_on_connect_def)
    with True Connect ok held life show ?thesis
      by auto
  next
    case False
    with Connect life have fresh: "live (ctx_addr c) = None"
      and rest: "lifecycle (live(ctx_addr c \<mapsto> data c)) es"
      by simp_all
    from held fresh have absent: "Some (ctx_addr c) \<notin> set (ac (pools wd q))"
      unfolding held_live_iff by auto
    show ?thesis
    proof (cases "data c = Some q")
      case True
      with False Connect have "pools (step M e wd) q = pool_on_connect_loop 0 (pools wd q) (ctx_addr c)"
        by (simp add: pools_pool_on_connect)
      with ok held absent rest True show ?thesis
        using pool_ok_connect_loop [OF ok absent] held_live_connect_loop [OF ok held absent]
        by auto
    next
      case other: False
      with Connect False have "pools (step M e wd) q = pools wd q"
        by (cases "data c") (simp_all add: pools_pool_on_connect pool_on_connect_def)
      with ok rest held_live_other [OF held absent] show ?thesis
        by auto
    qed
  qed
next
  case (Disconnect c status)
  with life have same: "case live (ctx_addr c) of None \<Rightarrow> True | Some d \<Rightarrow> data c = d"
    and rest: "lifecycle (live(ctx_addr c := None)) es"
    by simp_all
  show ?thesis
  proof (cases "data c = Some q")
    case True
    with Disconnect have "pools (step M e wd) q = pool_on_disconnect_loop 0 (pools wd q) (ctx_addr c)"
      by (simp add: pools_pool_on_disconnect)
    with rest show ?thesis
      using pool_ok_disconnect_loop [OF ok] held_live_disconnect_loop [OF ok held]
      by auto
  next
    case False
    with Disconnect have same_pool: "pools (step M e wd) q = pools wd q"
      by (cases "data c") (simp_all add: pools_pool_on_disconnect pool_on_disconnect_def)
    have absent: "Some (ctx_addr c) \<notin> set (ac (pools wd q))"
    proof
      assume "Some (ctx_addr c) \<in> set (ac (pools wd q))"
      with held have "live (ctx_addr c) = Some (Some q)"
        unfolding held_live_iff by simp
      with same False show False
        by simp
    qed
    with ok rest same_pool held_live_other [OF held absent] show ?thesis
      by auto
  qed
next
  case (Auth_complete c r pdata)
  with assms show ?thesis by auto
next
  case (Timer_fires i)
  with assms show ?thesis by auto
next
  case (Log level body sz)
  with assms show ?thesis by auto
next
  case (Memory b)
  with assms show ?thesis by auto
qed

lemma pool_inv_run:
  "pool_ok (pools wd q) \<Longrightarrow> held_live live q (pools wd q) \<Longrightarrow> lifecycle live es \<Longrightarrow>
   pool_ok (pools (run M es wd) q)"
proof (induction es arbitrary: wd live)
  case Nil
  then show ?case by simp
next
  case (Cons e es)
  from pool_inv_step [OF Cons.prems, of M] obtain live' where
    "pool_ok (pools (step M e wd) q)" "held_live live' q (pools (step M e wd) q)"
    "lifecycle live' es"
    by blast
  then have "pool_ok (pools (run M es (step M e wd)) q)"
    by (rule Cons.IH)
  then show ?case by simp
qed

lemma pool_new_empty:
  "ac (pools (snd (pool_new w n wd)) (fst (pool_new w n wd))) =
     replicate (nat (count (pools (snd (pool_new w n wd)) (fst (pool_new w n wd))))) None"
  by (simp add: pool_new_def Let_def)

section \<open>Slot exclusivity (C2)\<close>

text \<open>
  C2. Take a pool as \<open>pool_new\<close> makes it, a slot array of \<open>count\<close> entries that are
  all \<^verbatim>\<open>NULL\<close>, and any sequence of events that respects the life cycle of handles:
  connect and disconnect callbacks of any handles of any pools, with any status,
  mixed with every other step of the runtime. In the world reached, no handle is in
  two slots of the pool: the occupied slots hold pairwise different handles, that
  is, two positions that hold the same handle are one position. The slot array
  still has \<open>count\<close> entries. That a slot holds at most one handle is the type of a
  slot.
\<close>

theorem slot_exclusivity:
  assumes "ac (pools wd q) = replicate (nat (count (pools wd q))) None"
    and "lifecycle Map.empty es"
  shows "slots_exclusive (ac (pools (run M es wd) q))
       \<and> (\<forall>i < length (ac (pools (run M es wd) q)).
            \<forall>j < length (ac (pools (run M es wd) q)). \<forall>h.
              ac (pools (run M es wd) q) ! i = Some h \<and> ac (pools (run M es wd) q) ! j = Some h
              \<longrightarrow> i = j)
       \<and> length (ac (pools (run M es wd) q)) = nat (count (pools (run M es wd) q))
       \<and> ac (pools (snd (pool_new w n wd')) (fst (pool_new w n wd'))) =
           replicate (nat (count (pools (snd (pool_new w n wd')) (fst (pool_new w n wd'))))) None"
proof -
  have "set (ac (pools wd q)) \<subseteq> {None}"
    by (subst assms(1)) auto
  then have held: "held_live Map.empty q (pools wd q)"
    unfolding held_live_iff by auto
  have "slots_exclusive (ac (pools wd q))"
    by (subst assms(1)) (simp add: slots_exclusive_def)
  moreover have "length (ac (pools wd q)) = nat (count (pools wd q))"
    by (subst assms(1)) simp
  ultimately have "pool_ok (pools wd q)"
    by (simp add: pool_ok_def)
  from this held assms(2) have ok: "pool_ok (pools (run M es wd) q)"
    by (rule pool_inv_run)
  then have "slots_exclusive (ac (pools (run M es wd) q))"
    by (simp add: pool_ok_def)
  with ok slots_exclusive_nth [of "ac (pools (run M es wd) q)"] pool_new_empty [of w n wd']
  show ?thesis
    by (simp add: pool_ok_def)
qed

theorem slot_exclusivity_witness:
  "ac (pools example_world 9) = replicate (nat (count (pools example_world 9))) None
   \<and> lifecycle Map.empty
       [Connect (example_ctx 5) REDIS_OK, Connect (example_ctx 6) REDIS_OK,
        Disconnect (example_ctx 5) REDIS_ERR, Connect (example_ctx 5) REDIS_OK]
   \<and> ac (pools (run 124
         [Connect (example_ctx 5) REDIS_OK, Connect (example_ctx 6) REDIS_OK,
          Disconnect (example_ctx 5) REDIS_ERR, Connect (example_ctx 5) REDIS_OK]
         example_world) 9) = [Some 5, Some 6]
   \<and> slots_exclusive [Some 5, Some 6]"
proof -
  let ?es = "[Connect (example_ctx 5) REDIS_OK, Connect (example_ctx 6) REDIS_OK,
        Disconnect (example_ctx 5) REDIS_ERR, Connect (example_ctx 5) REDIS_OK]"
  have new: "ac (pools example_world 9) = replicate (nat (count (pools example_world 9))) None"
    by (simp add: numeral_2_eq_2)
  have life: "lifecycle Map.empty ?es"
    by (simp add: REDIS_OK_def REDIS_ERR_def)
  have slots: "ac (pools (run 124 ?es example_world) 9) = [Some 5, Some 6]"
    by (simp add: pools_pool_on_connect pools_pool_on_disconnect
        pool_on_connect_loop.simps pool_on_disconnect_loop.simps REDIS_OK_def REDIS_ERR_def)
  show ?thesis
    using new life slot_exclusivity [OF new life, of 124]
    unfolding slots by simp
qed

section \<open>Facts about the authentication callback\<close>

lemma pool_log_auth_failed:
  "pool_log_auth M level ''Authentication failed: %s'' (length ''Authentication failed: %s'') str wd =
     (if calloc_ok wd
      then slog M level
             (''Authentication failed: '' @ (case str of Some t \<Rightarrow> t | None \<Rightarrow> ''(null)''))
             (23 + length (case str of Some t \<Rightarrow> t | None \<Rightarrow> ''(null)'')) wd
      else wd)"
proof -
  let ?txt = "case str of Some t \<Rightarrow> t | None \<Rightarrow> ''(null)''"
  let ?n = "length ''Authentication failed: %s'' - 2
              + (case str of Some t \<Rightarrow> length t | None \<Rightarrow> 6) + 1"
  have m: "fst (snprintf ?n (expand (CHR ''s'') ''Authentication failed: %s'' ?txt)) =
             ''Authentication failed: '' @ ?txt"
    unfolding expand_auth_failed by (simp add: snprintf_def split: option.splits)
  have s: "?n - 1 = 23 + length ?txt"
    by (simp split: option.splits)
  show ?thesis
    unfolding pool_log_auth_def Let_def m s by (rule refl)
qed

lemma pool_log_auth_succeeded:
  "pool_log_auth M level ''Authentication succeeded: %s'' (length ''Authentication succeeded: %s'')
     str wd =
     (if calloc_ok wd
      then slog M level
             (''Authentication succeeded: '' @ (case str of Some t \<Rightarrow> t | None \<Rightarrow> ''(null)''))
             (26 + length (case str of Some t \<Rightarrow> t | None \<Rightarrow> ''(null)'')) wd
      else wd)"
proof -
  let ?txt = "case str of Some t \<Rightarrow> t | None \<Rightarrow> ''(null)''"
  let ?n = "length ''Authentication succeeded: %s'' - 2
              + (case str of Some t \<Rightarrow> length t | None \<Rightarrow> 6) + 1"
  have m: "fst (snprintf ?n (expand (CHR ''s'') ''Authentication succeeded: %s'' ?txt)) =
             ''Authentication succeeded: '' @ ?txt"
    unfolding expand_auth_succeeded by (simp add: snprintf_def split: option.splits)
  have s: "?n - 1 = 26 + length ?txt"
    by (simp split: option.splits)
  show ?thesis
    unfolding pool_log_auth_def Let_def m s by (rule refl)
qed

lemma pool_on_auth_complete_logged:
  "auth_logged (srv wd) \<noteq> 0 \<Longrightarrow> pool_on_auth_complete M c r pdata wd = wd"
  by (simp add: pool_on_auth_complete_def split: option.splits)

lemma pool_on_auth_complete_first:
  "auth_logged (srv wd) = 0 \<Longrightarrow>
   pool_on_auth_complete M c (Some reply) pdata wd =
     (if calloc_ok wd \<and> reply_type reply = REDIS_REPLY_ERROR
      then slog M WEBDIS_ERROR (''Authentication failed: '' @ reply_text reply)
             (23 + length (reply_text reply)) wd
      else if calloc_ok wd \<and> reply_type reply = REDIS_REPLY_STATUS
      then slog M WEBDIS_INFO (''Authentication succeeded: '' @ reply_text reply)
             (26 + length (reply_text reply)) wd
      else wd)\<lparr>srv := (srv wd)\<lparr>auth_logged := 1\<rparr>\<rparr>"
  unfolding pool_on_auth_complete_def Let_def pool_log_auth_failed pool_log_auth_succeeded
  by (simp add: reply_text_def int32_def)

lemma writes_srv_update [simp]: "writes (wd\<lparr>srv := s\<rparr>) = writes wd"
  by (simp add: writes_def)

lemma writes_pool_on_auth_complete_first:
  assumes "auth_logged (srv wd) = 0" and "fd (log (srv wd)) \<noteq> 0"
  shows "writes (pool_on_auth_complete M c (Some reply) pdata wd) =
           writes wd + (if auth_line_due wd reply then 1 else 0)"
  using assms
  by (simp add: pool_on_auth_complete_first writes_slog auth_line_due_def
      REDIS_REPLY_ERROR_def REDIS_REPLY_STATUS_def)

lemma writes_slog_le: "writes (slog M level body sz wd) - writes wd \<le> 1"
proof (cases "fd (log (srv wd)) = 0")
  case True
  then show ?thesis by (simp add: slog_def slog_internal_closed)
next
  case False
  then show ?thesis by (simp add: writes_slog)
qed

lemma writes_pool_on_auth_complete_le:
  "writes (pool_on_auth_complete M c r pdata wd) - writes wd \<le> 1"
proof (cases "auth_logged (srv wd) = 0")
  case False
  then show ?thesis by (simp add: pool_on_auth_complete_logged)
next
  case True
  show ?thesis
  proof (cases r)
    case None
    then show ?thesis by (simp add: pool_on_auth_complete_def)
  next
    case (Some reply)
    with True writes_slog_le [of M _ _ _ wd] show ?thesis
      by (simp add: pool_on_auth_complete_first)
  qed
qed

lemma auth_logged_pool_on_auth_complete:
  "auth_logged (srv (pool_on_auth_complete M c (Some reply) pdata wd)) \<noteq> 0"
  by (cases "auth_logged (srv wd) = 0")
    (simp_all add: pool_on_auth_complete_first pool_on_auth_complete_logged)

lemma srv_fire [simp]: "srv (fire i wd) = srv wd"
  by (simp add: fire_def run_callback_def slog_fsync_tick_def pool_can_connect_def Let_def
      split: callback.splits option.splits)

lemma srv_pool_on_connect [simp]: "srv (pool_on_connect c status wd) = srv wd"
  by (simp add: pool_on_connect_def split: option.splits)

lemma srv_pool_on_disconnect [simp]: "srv (pool_on_disconnect M c status wd) = srv wd"
  by (simp add: pool_on_disconnect_def Let_def split: option.splits)

lemma auth_lines_logged: "auth_logged (srv wd) \<noteq> 0 \<Longrightarrow> auth_lines M es wd = 0"
proof (induction es arbitrary: wd)
  case Nil
  then show ?case by simp
next
  case (Cons e es)
  then show ?case
    by (cases e) (simp_all add: pool_on_auth_complete_logged)
qed

lemma auth_lines_le: "auth_lines M es wd \<le> 1"
proof (induction es arbitrary: wd)
  case Nil
  then show ?case by simp
next
  case (Cons e es)
  show ?case
  proof (cases e)
    case (Auth_complete c r pdata)
    show ?thesis
    proof (cases r)
      case None
      with Auth_complete Cons.IH [of wd] show ?thesis
        by (simp add: pool_on_auth_complete_def)
    next
      case (Some reply)
      have "auth_lines M es (pool_on_auth_complete M c (Some reply) pdata wd) = 0"
        by (intro auth_lines_logged auth_logged_pool_on_auth_complete)
      with Auth_complete Some writes_pool_on_auth_complete_le [of M c r pdata wd]
      show ?thesis by simp
    qed
  qed (use Cons.IH in simp_all)
qed

lemma redis_reply_types [simp]:
  "REDIS_REPLY_ERROR \<noteq> REDIS_REPLY_STATUS" "REDIS_REPLY_STATUS \<noteq> REDIS_REPLY_ERROR"
  "REDIS_REPLY_ERROR \<noteq> 1" "REDIS_REPLY_STATUS \<noteq> 1"
  by (simp_all add: REDIS_REPLY_ERROR_def REDIS_REPLY_STATUS_def)

section \<open>The authentication callback (C3)\<close>

text \<open>
  C3, as amended. To write a line at a level is to call \<open>slog\<close> once at that level with the
  whole message; whether the line reaches the sink is then the matter of the level
  gate. For a reply that is not \<^verbatim>\<open>NULL\<close>: when \<open>auth_logged\<close> is set the callback
  returns the world unchanged. Otherwise, when \<^verbatim>\<open>calloc\<close> returns the buffer for the
  message, it calls \<open>slog\<close> at \<^verbatim>\<open>WEBDIS_ERROR\<close> with \<^verbatim>\<open>"Authentication failed: "\<close>
  followed by the reply's text for an error reply, and \<open>slog\<close> at \<^verbatim>\<open>WEBDIS_INFO\<close> with
  \<^verbatim>\<open>"Authentication succeeded: "\<close> followed by the text for a status reply; for a reply
  of any other type, and for every reply when \<^verbatim>\<open>calloc\<close> returns \<^verbatim>\<open>NULL\<close>, it logs
  nothing. In all these cases it sets \<open>auth_logged\<close> to 1 and changes nothing else.
  On an opened sink that is one \<^verbatim>\<open>write\<close> when the buffer is there and the reply is
  an error reply, or a status reply while the info level is enabled, and none
  otherwise. After a non-\<^verbatim>\<open>NULL\<close> reply \<open>auth_logged\<close> is set whatever it was before.
  In every execution of the runtime, from every world, the authentication callbacks
  together issue at most one \<^verbatim>\<open>write\<close>.
\<close>

theorem auth_complete_once:
  "(auth_logged (srv wd) \<noteq> 0 \<longrightarrow> pool_on_auth_complete M c (Some reply) pdata wd = wd)
   \<and> (auth_logged (srv wd) = 0 \<longrightarrow>
        pool_on_auth_complete M c (Some reply) pdata wd =
          (if calloc_ok wd \<and> reply_type reply = REDIS_REPLY_ERROR
           then slog M WEBDIS_ERROR (''Authentication failed: '' @ reply_text reply)
                  (23 + length (reply_text reply)) wd
           else if calloc_ok wd \<and> reply_type reply = REDIS_REPLY_STATUS
           then slog M WEBDIS_INFO (''Authentication succeeded: '' @ reply_text reply)
                  (26 + length (reply_text reply)) wd
           else wd)\<lparr>srv := (srv wd)\<lparr>auth_logged := 1\<rparr>\<rparr>
        \<and> (fd (log (srv wd)) \<noteq> 0 \<longrightarrow>
             writes (pool_on_auth_complete M c (Some reply) pdata wd) =
               writes wd + (if auth_line_due wd reply then 1 else 0)))
   \<and> auth_logged (srv (pool_on_auth_complete M c (Some reply) pdata wd)) \<noteq> 0
   \<and> auth_lines M es wd' \<le> 1"
  using pool_on_auth_complete_logged [of wd M c "Some reply" pdata]
    pool_on_auth_complete_first [of wd M c reply pdata]
    writes_pool_on_auth_complete_first [of wd M c reply pdata]
    auth_logged_pool_on_auth_complete [of M c reply pdata wd]
    auth_lines_le [of M es wd']
  by blast

theorem auth_complete_once_witness:
  "auth_logged (srv example_world) = 0
   \<and> trace (pool_on_auth_complete 124 (example_ctx 5)
        (Some (example_reply REDIS_REPLY_ERROR ''WRONGPASS'')) 9 example_world) =
       [Write 2 (''[4242] 30 Oct 19:35:00 E Authentication failed: WRONGPASS'' @ [CHR 0x0A]) 58]
   \<and> trace (pool_on_auth_complete 124 (example_ctx 5)
        (Some (example_reply REDIS_REPLY_STATUS ''OK'')) 9 example_world) =
       [Write 2 (''[4242] 30 Oct 19:35:00 I Authentication succeeded: OK'' @ [CHR 0x0A]) 54]
   \<and> trace (pool_on_auth_complete 124 (example_ctx 5)
        (Some (example_reply 1 ''text'')) 9 example_world) = []
   \<and> auth_logged (srv (pool_on_auth_complete 124 (example_ctx 5)
        (Some (example_reply 1 ''text'')) 9 example_world)) = 1
   \<and> pool_on_auth_complete 124 (example_ctx 5) (Some (example_reply REDIS_REPLY_ERROR ''WRONGPASS'')) 9
       (pool_on_auth_complete 124 (example_ctx 5)
          (Some (example_reply REDIS_REPLY_STATUS ''OK'')) 9 example_world) =
       pool_on_auth_complete 124 (example_ctx 5)
          (Some (example_reply REDIS_REPLY_STATUS ''OK'')) 9 example_world
   \<and> auth_lines 124
       [Auth_complete (example_ctx 5) (Some (example_reply REDIS_REPLY_STATUS ''OK'')) 9,
        Auth_complete (example_ctx 6) (Some (example_reply REDIS_REPLY_ERROR ''WRONGPASS'')) 9]
       example_world \<le> 1"
proof -
  let ?err = "example_reply REDIS_REPLY_ERROR ''WRONGPASS''"
  let ?ok = "example_reply REDIS_REPLY_STATUS ''OK''"
  let ?other = "example_reply 1 ''text''"
  let ?w1 = "pool_on_auth_complete 124 (example_ctx 5) (Some ?ok) 9 example_world"
  have z: "auth_logged (srv example_world) = 0"
    by simp
  have l1: "slog_line 124 WEBDIS_ERROR ''Authentication failed: WRONGPASS'' 32 example_world =
              ''[4242] 30 Oct 19:35:00 E Authentication failed: WRONGPASS'' @ [CHR 0x0A]"
    by (simp add: slog_line_def line_format_def slog_time_buf_def slog_letter_def
        slog_msg_def msg_size_arg_def size_t_def sizeof_msg_def snprintf_def show_int_def
        int32_def digits.simps)
  have l2: "slog_line 124 WEBDIS_INFO ''Authentication succeeded: OK'' 28 example_world =
              ''[4242] 30 Oct 19:35:00 I Authentication succeeded: OK'' @ [CHR 0x0A]"
    by (simp add: slog_line_def line_format_def slog_time_buf_def slog_letter_def
        slog_msg_def msg_size_arg_def size_t_def sizeof_msg_def snprintf_def show_int_def
        int32_def digits.simps)
  note E = auth_complete_once [of example_world 124 "example_ctx 5" ?err 9]
  note S = auth_complete_once [of example_world 124 "example_ctx 5" ?ok 9]
  note O = auth_complete_once [of example_world 124 "example_ctx 5" ?other 9]
  have a1: "trace (pool_on_auth_complete 124 (example_ctx 5) (Some ?err) 9 example_world) =
       [Write 2 (''[4242] 30 Oct 19:35:00 E Authentication failed: WRONGPASS'' @ [CHR 0x0A]) 58]"
    using E z l1
    by (simp add: slog_def slog_internal_trace emitted_def snprintf_def sizeof_line_def)
  have a2: "trace ?w1 =
       [Write 2 (''[4242] 30 Oct 19:35:00 I Authentication succeeded: OK'' @ [CHR 0x0A]) 54]"
    using S z l2
    by (simp add: slog_def slog_internal_trace emitted_def snprintf_def sizeof_line_def)
  have a3: "trace (pool_on_auth_complete 124 (example_ctx 5) (Some ?other) 9 example_world) = []
     \<and> auth_logged (srv (pool_on_auth_complete 124 (example_ctx 5) (Some ?other) 9
          example_world)) = 1"
    using O z by simp
  have n: "auth_logged (srv ?w1) \<noteq> 0"
    using S by blast
  have a4: "pool_on_auth_complete 124 (example_ctx 5) (Some ?err) 9 ?w1 = ?w1"
    using auth_complete_once [of ?w1 124 "example_ctx 5" ?err 9] n by blast
  have a5: "auth_lines 124
       [Auth_complete (example_ctx 5) (Some ?ok) 9, Auth_complete (example_ctx 6) (Some ?err) 9]
       example_world \<le> 1"
    using auth_complete_once [of example_world 124 "example_ctx 5" ?err 9
        "[Auth_complete (example_ctx 5) (Some ?ok) 9, Auth_complete (example_ctx 6) (Some ?err) 9]"
        example_world]
    by blast
  show ?thesis
    using z a1 a2 a3 a4 a5 by simp
qed

text \<open>
  An error reply while \<^verbatim>\<open>calloc\<close> returns \<^verbatim>\<open>NULL\<close>: nothing has been logged about
  authentication yet and the sink is opened, and the callback writes no line, yet
  sets \<open>auth_logged\<close>.
\<close>

theorem auth_complete_no_memory:
  "auth_logged (srv example_world_no_memory) = 0
   \<and> fd (log (srv example_world_no_memory)) = 2
   \<and> reply_type (example_reply REDIS_REPLY_ERROR ''WRONGPASS'') = REDIS_REPLY_ERROR
   \<and> trace (pool_on_auth_complete 124 (example_ctx 5)
        (Some (example_reply REDIS_REPLY_ERROR ''WRONGPASS'')) 9 example_world_no_memory) = []
   \<and> auth_logged (srv (pool_on_auth_complete 124 (example_ctx 5)
        (Some (example_reply REDIS_REPLY_ERROR ''WRONGPASS'')) 9 example_world_no_memory)) = 1"
  by (simp add: pool_on_auth_complete_def pool_log_auth_def Let_def int32_def)

lemma auth_run_logged: "auth_logged (srv wd) \<noteq> 0 \<Longrightarrow> auth_run M cs wd = wd"
  by (induction cs arbitrary: wd) (auto simp add: pool_on_auth_complete_logged)

section \<open>One authentication line per process (C1)\<close>

text \<open>
  C1, as amended. From a world in which nothing has been logged about authentication
  yet and the sink is opened, a sequence of completed authentication callbacks writes
  exactly one line if \<^verbatim>\<open>calloc\<close> returns the buffer for the message and the first
  reply that is not \<^verbatim>\<open>NULL\<close> is an error reply, or a status reply while the info level
  is enabled; and no line otherwise: when every reply is \<^verbatim>\<open>NULL\<close>, when the first reply
  that is not \<^verbatim>\<open>NULL\<close> is of another type, or a status reply while the info level is
  disabled, and when \<^verbatim>\<open>calloc\<close> returns \<^verbatim>\<open>NULL\<close>.
\<close>

theorem auth_lines_first_reply:
  assumes "auth_logged (srv wd) = 0" and "fd (log (srv wd)) \<noteq> 0"
  shows "writes (auth_run M cs wd) =
           writes wd + (case first_reply cs of
                          None \<Rightarrow> 0
                        | Some reply \<Rightarrow> if auth_line_due wd reply then 1 else 0)"
  using assms
proof (induction cs arbitrary: wd)
  case Nil
  then show ?case by simp
next
  case (Cons x cs)
  obtain c r pdata where x: "x = (c, r, pdata)"
    by (cases x) auto
  show ?case
  proof (cases r)
    case None
    with x Cons show ?thesis
      by (simp add: pool_on_auth_complete_def)
  next
    case (Some reply)
    have "auth_run M cs (pool_on_auth_complete M c (Some reply) pdata wd) =
            pool_on_auth_complete M c (Some reply) pdata wd"
      by (intro auth_run_logged auth_logged_pool_on_auth_complete)
    with x Some Cons.prems show ?thesis
      by (simp add: writes_pool_on_auth_complete_first)
  qed
qed

theorem auth_lines_first_reply_witness:
  "auth_logged (srv example_world) = 0
   \<and> fd (log (srv example_world)) \<noteq> 0
   \<and> writes (auth_run 124
        [(example_ctx 5, None, 9),
         (example_ctx 5, Some (example_reply REDIS_REPLY_STATUS ''OK''), 9),
         (example_ctx 6, Some (example_reply REDIS_REPLY_ERROR ''WRONGPASS''), 9)]
        example_world) = 1
   \<and> writes (auth_run 124 [(example_ctx 5, None, 9), (example_ctx 6, None, 9)] example_world) = 0
   \<and> auth_logged (srv example_world_no_memory) = 0
   \<and> fd (log (srv example_world_no_memory)) \<noteq> 0
   \<and> writes (auth_run 124
        [(example_ctx 6, Some (example_reply REDIS_REPLY_ERROR ''WRONGPASS''), 9)]
        example_world_no_memory) = 0"
proof -
  have z: "auth_logged (srv example_world) = 0" and f: "fd (log (srv example_world)) \<noteq> 0"
    by simp_all
  have z': "auth_logged (srv example_world_no_memory) = 0"
    and f': "fd (log (srv example_world_no_memory)) \<noteq> 0"
    by simp_all
  show ?thesis
    using z f z' f'
      auth_lines_first_reply [OF z f, of 124
        "[(example_ctx 5, None, 9),
          (example_ctx 5, Some (example_reply REDIS_REPLY_STATUS ''OK''), 9),
          (example_ctx 6, Some (example_reply REDIS_REPLY_ERROR ''WRONGPASS''), 9)]"]
      auth_lines_first_reply [OF z f, of 124 "[(example_ctx 5, None, 9), (example_ctx 6, None, 9)]"]
      auth_lines_first_reply [OF z' f', of 124
        "[(example_ctx 6, Some (example_reply REDIS_REPLY_ERROR ''WRONGPASS''), 9)]"]
    by (simp add: auth_line_due_def writes_def)
qed

text \<open>
  One completion carrying an error or status reply is not enough for a line: a reply
  of another type that completes first sets \<open>auth_logged\<close> without logging, and the
  error reply after it is dropped. Here the sink is opened and logs up to the info
  level, and memory is available.
\<close>

theorem auth_logged_once_counterexample:
  "auth_logged (srv example_world) = 0
   \<and> fd (log (srv example_world)) = 2
   \<and> verbosity (cfg (srv example_world)) = WEBDIS_INFO
   \<and> calloc_ok example_world
   \<and> reply_type (example_reply REDIS_REPLY_ERROR ''WRONGPASS'') = REDIS_REPLY_ERROR
   \<and> writes (auth_run 124
        [(example_ctx 5, Some (example_reply 1 ''text''), 9),
         (example_ctx 6, Some (example_reply REDIS_REPLY_ERROR ''WRONGPASS''), 9)]
        example_world) = 0"
  by (simp add: pool_on_auth_complete_def int32_def writes_def)

end
